theory Spec2Isabelle
  imports Complex_Main "HOL-Library.Word"
begin

unbundle bit_operations_syntax

section \<open>The GLB container of tools/add\_skeleton.py\<close>

text \<open>
  The tool reads a binary glTF container, appends a skeleton, skin weights and three
  animation clips to the document and to the binary payload, and writes a second
  container. Files are byte lists, Python's exceptions are values of \<open>error\<close>, and a
  function that may raise returns \<open>error + 'a\<close> with \<open>Inl\<close> for the exception.
\<close>

type_synonym byte = "8 word"

datatype error =
    ValueError string
  | StructError
  | JSONDecodeError
  | KeyError string
  | IndexError
  | TypeError

subsection \<open>struct.pack and struct.unpack for the format \<open><I\<close>\<close>

text \<open>
  \<open>struct.unpack('<I', bs)\<close> on exactly four bytes: the little-endian value.
  \<open>struct.pack('<I', n)\<close> raises \<open>struct.error\<close> when \<open>n\<close> does not fit 32 bits.
\<close>

definition unpack_I :: "byte list \<Rightarrow> nat" where
  "unpack_I bs = foldr (\<lambda>b n. unat b + 256 * n) bs 0"

definition le_bytes :: "nat \<Rightarrow> nat \<Rightarrow> byte list" where
  "le_bytes k n = map (\<lambda>i. of_nat (n div 256 ^ i)) [0..<k]"

definition pack_I :: "nat \<Rightarrow> error + byte list" where
  "pack_I n = (if n < 2 ^ 32 then Inr (le_bytes 4 n) else Inl StructError)"

subsection \<open>read\_glb\<close>

text \<open>
  \<open>f.read(n)\<close> at position \<open>p\<close> is \<open>take n (drop p file)\<close>: a read past the end of the
  file returns fewer bytes and raises nothing; \<open>struct.unpack\<close> raises on a buffer of
  the wrong size. \<open>json_loads\<close> stands for \<open>json.loads(bs.decode('utf-8'))\<close> of the
  standard library, \<open>None\<close> when either step raises. The version and the two chunk
  type tags are unpacked and never looked at.
\<close>

definition GLB_MAGIC :: nat where
  "GLB_MAGIC = 0x46546C67"

definition read_glb :: "(byte list \<Rightarrow> 'doc option) \<Rightarrow> byte list \<Rightarrow> error + ('doc \<times> byte list)" where
  "read_glb json_loads file =
    (let hdr = take 12 file in
     if length hdr \<noteq> 12 then Inl StructError
     else
       let magic = unpack_I (take 4 hdr);
           version = unpack_I (take 4 (drop 4 hdr));
           total = unpack_I (drop 8 hdr)
       in
       if magic \<noteq> GLB_MAGIC then Inl (ValueError ''Not a valid GLB file'')
       else
         let ch = take 8 (drop 12 file) in
         if length ch \<noteq> 8 then Inl StructError
         else
           let chunk_len = unpack_I (take 4 ch);
               chunk_type = unpack_I (drop 4 ch);
               body = take chunk_len (drop 20 file)
           in
           (case json_loads body of
              None \<Rightarrow> Inl JSONDecodeError
            | Some json_data \<Rightarrow>
                let tell = 20 + length body in
                if tell < total then
                  let ch2 = take 8 (drop tell file) in
                  if length ch2 \<noteq> 8 then Inl StructError
                  else Inr (json_data, take (unpack_I (take 4 ch2)) (drop (tell + 8) file))
                else Inr (json_data, [])))"

subsection \<open>write\_glb\<close>

text \<open>The two padding loops of \<open>write_glb\<close>, and the alignment loop of \<open>add_to_buffer\<close>.\<close>

function pad4 :: "byte \<Rightarrow> byte list \<Rightarrow> byte list" where
  "pad4 fill bs = (if length bs mod 4 \<noteq> 0 then pad4 fill (bs @ [fill]) else bs)"
  by pat_completeness auto
termination
proof (relation "measure (\<lambda>(fill, bs). (4 - length bs mod 4) mod 4)")
  show "wf (measure (\<lambda>(fill :: byte, bs :: byte list). (4 - length bs mod 4) mod 4))"
    by simp
next
  fix fill :: byte and bs :: "byte list"
  assume a: "length bs mod 4 \<noteq> 0"
  have "length bs mod 4 < 4" by simp
  then consider "length bs mod 4 = 1" | "length bs mod 4 = 2" | "length bs mod 4 = 3"
    using a by linarith
  then have "(4 - Suc (length bs) mod 4) mod 4 < (4 - length bs mod 4) mod 4"
    by cases (simp_all add: mod_Suc)
  then show "((fill, bs @ [fill]), (fill, bs))
      \<in> measure (\<lambda>(fill, bs). (4 - length bs mod 4) mod 4)"
    by simp
qed

declare pad4.simps [simp del]

text \<open>
  \<open>json_dumps\<close> stands for \<open>json.dumps(gltf, separators=(',', ':')).encode('utf-8')\<close>.
  The file is opened before the header is packed, so when \<open>struct.pack\<close> raises on a
  total length beyond 32 bits the output file exists and is empty: \<open>write_glb\<close> returns
  the exception or the bytes written.
\<close>

definition write_glb :: "('doc \<Rightarrow> byte list) \<Rightarrow> 'doc \<Rightarrow> byte list \<Rightarrow> error + byte list" where
  "write_glb json_dumps gltf bin_data =
    (let json_str = pad4 0x20 (json_dumps gltf);
         bin_padded = pad4 0x00 bin_data;
         total_length = 12 + 8 + length json_str + 8 + length bin_padded
     in
     case pack_I total_length of
       Inl e \<Rightarrow> Inl e
     | Inr total_bytes \<Rightarrow>
         (case pack_I (length json_str) of
            Inl e \<Rightarrow> Inl e
          | Inr json_len \<Rightarrow>
              (case pack_I (length bin_padded) of
                 Inl e \<Rightarrow> Inl e
               | Inr bin_len \<Rightarrow>
                   Inr (le_bytes 4 GLB_MAGIC @ le_bytes 4 2 @ total_bytes
                        @ json_len @ le_bytes 4 0x4E4F534A @ json_str
                        @ bin_len @ le_bytes 4 0x004E4942 @ bin_padded))))"

subsection \<open>Sequencing of calls that may raise\<close>

definition then_do :: "error + 'a \<Rightarrow> ('a \<Rightarrow> error + 'b) \<Rightarrow> error + 'b" where
  "then_do m f = (case m of Inl e \<Rightarrow> Inl e | Inr x \<Rightarrow> f x)"

text \<open>\<open>xs[i]\<close> for an index that is not negative.\<close>

definition index :: "'a list \<Rightarrow> nat \<Rightarrow> error + 'a" where
  "index xs i = (if i < length xs then Inr (xs ! i) else Inl IndexError)"

section \<open>The document\<close>

text \<open>
  \<open>json.loads\<close> returns nested dicts and lists. The model gives the document the
  shape the tool relies on: one record per kind of object, with the keys the tool
  reads or writes; a key the tool tests for presence (\<open>'mesh' in node\<close>,
  \<open>.get('byteOffset', 0)\<close>) is an \<open>option\<close>. Python floats (and numpy's float64 and
  float32) are idealised as \<open>real\<close>: no rounding, no infinities, no NaN.
\<close>

record node =
  n_name :: "string option"
  n_mesh :: "nat option"
  n_skin :: "nat option"
  n_children :: "nat list option"
  n_translation :: "real list option"
  n_rotation :: "real list option"
  n_scale :: "real list option"

record primitive =
  p_attributes :: "string \<rightharpoonup> nat"

record mesh =
  m_primitives :: "primitive list"

record accessor =
  acc_bufferView :: nat
  acc_byteOffset :: "nat option"
  acc_componentType :: nat
  acc_count :: nat
  acc_type :: string
  acc_min :: "real list option"
  acc_max :: "real list option"

record bufferView =
  bv_buffer :: nat
  bv_byteOffset :: "nat option"
  bv_byteLength :: nat
  bv_byteStride :: "nat option"

record buffer =
  b_byteLength :: nat

record skin =
  s_inverseBindMatrices :: "nat option"
  s_joints :: "nat list"
  s_skeleton :: "nat option"
  s_name :: "string option"

record sampler =
  sm_input :: nat
  sm_output :: nat
  sm_interpolation :: string

record channel =
  ch_sampler :: nat
  ch_node :: nat
  ch_path :: string

record animation =
  a_name :: string
  a_samplers :: "sampler list"
  a_channels :: "channel list"

record scene =
  sc_nodes :: "nat list option"

record gltf =
  g_nodes :: "node list"
  g_meshes :: "mesh list"
  g_accessors :: "accessor list"
  g_bufferViews :: "bufferView list"
  g_buffers :: "buffer list"
  g_skins :: "skin list option"
  g_animations :: "animation list option"
  g_scenes :: "scene list option"

section \<open>get\_accessor\_data\<close>

definition component_types :: "nat \<Rightarrow> char option" where
  "component_types c =
    (if c = 5120 then Some CHR ''b'' else if c = 5121 then Some CHR ''B''
     else if c = 5122 then Some CHR ''h'' else if c = 5123 then Some CHR ''H''
     else if c = 5125 then Some CHR ''I'' else if c = 5126 then Some CHR ''f''
     else None)"

definition type_counts :: "string \<Rightarrow> nat option" where
  "type_counts t =
    (if t = ''SCALAR'' then Some 1 else if t = ''VEC2'' then Some 2
     else if t = ''VEC3'' then Some 3 else if t = ''VEC4'' then Some 4
     else if t = ''MAT4'' then Some 16 else None)"

definition calcsize :: "char \<Rightarrow> nat" where
  "calcsize d =
    (if d = CHR ''b'' \<or> d = CHR ''B'' then 1
     else if d = CHR ''h'' \<or> d = CHR ''H'' then 2 else 4)"

text \<open>
  One value of \<open>struct.unpack\<close>, little-endian, for the six format characters.
  \<open>f32_val\<close> stands for the value of a binary32 bit pattern.
\<close>

definition unpack_value :: "(32 word \<Rightarrow> real) \<Rightarrow> char \<Rightarrow> byte list \<Rightarrow> real" where
  "unpack_value f32_val d bs =
    (let n = unpack_I bs in
     if d = CHR ''f'' then f32_val (of_nat n)
     else if d = CHR ''b'' then (if n < 2 ^ 7 then real n else real n - 2 ^ 8)
     else if d = CHR ''h'' then (if n < 2 ^ 15 then real n else real n - 2 ^ 16)
     else real n)"

text \<open>\<open>[data[i:i+count] for i in range(0, len(data), count)]\<close>, for \<open>count > 0\<close>.\<close>

definition chunks :: "nat \<Rightarrow> 'a list \<Rightarrow> 'a list list" where
  "chunks k xs = map (\<lambda>j. take k (drop (j * k) xs)) [0..<(length xs + k - 1) div k]"

datatype accessor_data = Scalars "real list" | Vectors "real list list"

definition get_accessor_data ::
  "(32 word \<Rightarrow> real) \<Rightarrow> gltf \<Rightarrow> byte list \<Rightarrow> nat \<Rightarrow> error + accessor_data" where
  "get_accessor_data f32_val gltf bin_data accessor_idx =
    then_do (index (g_accessors gltf) accessor_idx) (\<lambda>accessor.
    then_do (index (g_bufferViews gltf) (acc_bufferView accessor)) (\<lambda>buffer_view.
      let offset = (case bv_byteOffset buffer_view of None \<Rightarrow> 0 | Some n \<Rightarrow> n)
                   + (case acc_byteOffset accessor of None \<Rightarrow> 0 | Some n \<Rightarrow> n)
      in
      case component_types (acc_componentType accessor) of
        None \<Rightarrow> Inl (KeyError ''componentType'')
      | Some dtype \<Rightarrow>
          (case type_counts (acc_type accessor) of
             None \<Rightarrow> Inl (KeyError (acc_type accessor))
           | Some count \<Rightarrow>
               let total = acc_count accessor * count;
                   size = calcsize dtype * total;
                   region = take size (drop offset bin_data)
               in
               if length region \<noteq> size then Inl StructError
               else
                 let data = map (unpack_value f32_val dtype) (chunks (calcsize dtype) region)
                 in Inr (if count = 1 then Scalars data else Vectors (chunks count data)))))"

section \<open>add\_to\_buffer\<close>

text \<open>
  The pair \<open>(data, dtype)\<close> of the source: \<open>'f'\<close> packs numbers as binary32, \<open>'H'\<close> and
  \<open>'B'\<close> pack unsigned integers and raise \<open>struct.error\<close> out of range, any other
  \<open>dtype\<close> appends \<open>data\<close> as it is. \<open>f32_bits\<close> stands for the rounding of a number to
  binary32; it is total here, the reals having no value that overflows. The caller's
  \<open>bytearray\<close> is extended in place; the model returns it with the offset and the
  packed length.
\<close>

datatype buffer_data =
    Floats "real list"
  | UShorts "nat list"
  | UBytes "nat list"
  | Packed "byte list"

definition pack_data :: "(real \<Rightarrow> 32 word) \<Rightarrow> buffer_data \<Rightarrow> error + byte list" where
  "pack_data f32_bits d =
    (case d of
       Floats xs \<Rightarrow> Inr (concat (map (\<lambda>x. le_bytes 4 (unat (f32_bits x))) xs))
     | UShorts ns \<Rightarrow>
         (if list_all (\<lambda>n. n < 2 ^ 16) ns then Inr (concat (map (le_bytes 2) ns))
          else Inl StructError)
     | UBytes ns \<Rightarrow>
         (if list_all (\<lambda>n. n < 2 ^ 8) ns then Inr (concat (map (le_bytes 1) ns))
          else Inl StructError)
     | Packed bs \<Rightarrow> Inr bs)"

definition add_to_buffer ::
  "(real \<Rightarrow> 32 word) \<Rightarrow> byte list \<Rightarrow> buffer_data \<Rightarrow> error + (byte list \<times> nat \<times> nat)" where
  "add_to_buffer f32_bits bin_data d =
    (let aligned = pad4 0x00 bin_data;
         offset = length aligned
     in then_do (pack_data f32_bits d) (\<lambda>packed.
          Inr (aligned @ packed, offset, length packed)))"

section \<open>create\_humanoid\_skeleton\<close>

text \<open>
  A bone is \<open>(name, position, parent_index)\<close>. The bounds are two lists as
  \<open>ndarray.tolist()\<close> returns them; \<open>min_pt[2]\<close> raises \<open>IndexError\<close> on a list of
  fewer than three numbers.
\<close>

type_synonym vec3 = "real \<times> real \<times> real"
type_synonym bone = "string \<times> vec3 \<times> int"

definition create_humanoid_skeleton :: "real list \<times> real list \<Rightarrow> error + bone list" where
  "create_humanoid_skeleton mesh_bounds =
    (let min_pt = fst mesh_bounds; max_pt = snd mesh_bounds in
     if length min_pt < 3 \<or> length max_pt < 3 then Inl IndexError
     else
       let width = max_pt ! 0 - min_pt ! 0;
           height = max_pt ! 1 - min_pt ! 1;
           depth = max_pt ! 2 - min_pt ! 2;
           center_x = (min_pt ! 0 + max_pt ! 0) / 2;
           center_z = (min_pt ! 2 + max_pt ! 2) / 2;
           y0 = min_pt ! 1
       in Inr
        [(''Root'',          (center_x, y0, center_z), -1),
         (''Hips'',          (center_x, y0 + height * 0.45, center_z), 0),
         (''Spine'',         (center_x, y0 + height * 0.55, center_z), 1),
         (''Chest'',         (center_x, y0 + height * 0.65, center_z), 2),
         (''Neck'',          (center_x, y0 + height * 0.80, center_z), 3),
         (''Head'',          (center_x, y0 + height * 0.90, center_z), 4),
         (''LeftShoulder'',  (center_x + width * 0.25, y0 + height * 0.75, center_z), 3),
         (''LeftArm'',       (center_x + width * 0.35, y0 + height * 0.65, center_z), 6),
         (''LeftForearm'',   (center_x + width * 0.40, y0 + height * 0.50, center_z), 7),
         (''LeftHand'',      (center_x + width * 0.45, y0 + height * 0.35, center_z), 8),
         (''RightShoulder'', (center_x - width * 0.25, y0 + height * 0.75, center_z), 3),
         (''RightArm'',      (center_x - width * 0.35, y0 + height * 0.65, center_z), 10),
         (''RightForearm'',  (center_x - width * 0.40, y0 + height * 0.50, center_z), 11),
         (''RightHand'',     (center_x - width * 0.45, y0 + height * 0.35, center_z), 12),
         (''LeftUpLeg'',     (center_x + width * 0.12, y0 + height * 0.45, center_z), 1),
         (''LeftLeg'',       (center_x + width * 0.12, y0 + height * 0.25, center_z), 14),
         (''LeftFoot'',      (center_x + width * 0.12, y0 + height * 0.05, center_z), 15),
         (''RightUpLeg'',    (center_x - width * 0.12, y0 + height * 0.45, center_z), 1),
         (''RightLeg'',      (center_x - width * 0.12, y0 + height * 0.25, center_z), 17),
         (''RightFoot'',     (center_x - width * 0.12, y0 + height * 0.05, center_z), 18)])"

definition parent_index :: "bone \<Rightarrow> int" where
  "parent_index b = snd (snd b)"

section \<open>compute\_skin\_weights\<close>

text \<open>
  \<open>max_influences\<close> is the parameter's default, which the only call uses.
  \<open>np.argsort\<close> sorts with an unstable algorithm, so the order it gives to equal keys
  is not fixed: \<open>argsort\<close> is a parameter, and \<open>argsort_ok\<close> says what every run of
  \<open>np.argsort\<close> on NaN-free keys satisfies (a permutation of the indices along which
  the keys ascend).
\<close>

definition max_influences :: nat where
  "max_influences = 4"

definition argsort_ok :: "real list \<Rightarrow> nat list \<Rightarrow> bool" where
  "argsort_ok keys perm =
    (length perm = length keys \<and> distinct perm \<and> list_all (\<lambda>i. i < length keys) perm
     \<and> sorted (map (\<lambda>i. keys ! i) perm))"

definition distance :: "vec3 \<Rightarrow> vec3 \<Rightarrow> real" where
  "distance b p =
    (case b of (bx, by, bz) \<Rightarrow> case p of (px, py, pz) \<Rightarrow>
       sqrt ((bx - px)\<^sup>2 + (by - py)\<^sup>2 + (bz - pz)\<^sup>2))"

definition inv_dist :: "vec3 list \<Rightarrow> vec3 \<Rightarrow> real list" where
  "inv_dist bone_positions pos = map (\<lambda>b. 1 / (distance b pos + 0.001)) bone_positions"

definition top_indices :: "(real list \<Rightarrow> nat list) \<Rightarrow> real list \<Rightarrow> nat list" where
  "top_indices argsort ws =
     (let order = argsort ws in rev (drop (length order - max_influences) order))"

definition normalize_weights :: "real list \<Rightarrow> real list" where
  "normalize_weights top_weights =
    (let total = sum_list top_weights in
     if total > 0 then map (\<lambda>w. w / total) top_weights else top_weights)"

text \<open>
  \<open>joints[i] = top_indices\<close> and \<open>weights[i] = top_weights\<close> assign into rows of
  \<open>max_influences\<close> entries: numpy repeats a single value along the row and raises
  \<open>ValueError\<close> for any other length that differs. The joints row is \<open>uint8\<close>.
\<close>

definition assign_row :: "'a list \<Rightarrow> error + 'a list" where
  "assign_row xs =
    (if length xs = max_influences then Inr xs
     else if length xs = 1 then Inr (replicate max_influences (hd xs))
     else Inl (ValueError ''could not broadcast input array''))"

definition vertex_influences ::
  "(real list \<Rightarrow> nat list) \<Rightarrow> vec3 list \<Rightarrow> vec3 \<Rightarrow> error + (nat list \<times> real list)" where
  "vertex_influences argsort bone_positions pos =
    (if bone_positions = [] then Inl (ValueError ''operands could not be broadcast together'')
     else
       let ws = inv_dist bone_positions pos;
           top = top_indices argsort ws;
           top_weights = normalize_weights (map (\<lambda>i. ws ! i) top)
       in then_do (assign_row (map (\<lambda>i. i mod 256) top)) (\<lambda>js.
          then_do (assign_row top_weights) (\<lambda>tw. Inr (js, tw))))"

fun skin_rows ::
  "(real list \<Rightarrow> nat list) \<Rightarrow> vec3 list \<Rightarrow> vec3 list \<Rightarrow> error + (nat list \<times> real list) list" where
  "skin_rows argsort bone_positions [] = Inr []"
| "skin_rows argsort bone_positions (pos # rest) =
     then_do (vertex_influences argsort bone_positions pos) (\<lambda>row.
     then_do (skin_rows argsort bone_positions rest) (\<lambda>rows. Inr (row # rows)))"

definition compute_skin_weights ::
  "(real list \<Rightarrow> nat list) \<Rightarrow> vec3 list \<Rightarrow> bone list \<Rightarrow> error + (nat list \<times> real list)" where
  "compute_skin_weights argsort positions bones =
     then_do (skin_rows argsort (map (\<lambda>b. fst (snd b)) bones) positions) (\<lambda>rows.
       Inr (concat (map fst rows), concat (map snd rows)))"

section \<open>create\_animations\<close>

text \<open>
  A channel is \<open>(bone_index, path, times, values)\<close>, a clip \<open>(name, channels)\<close>.
  The frame counts \<open>int(duration * fps)\<close> are 60, 30 and 15. The three branches on
  \<open>progress\<close> that the attack clip writes out for the arm (1.5), the forearm (0.5) and
  the chest (0.3) are one function of the amplitude, \<open>attack_angle\<close>. The unused read
  \<open>bones[HIPS][1][1]\<close> raises \<open>IndexError\<close> on fewer than two bones.
\<close>

type_synonym anim_channel = "nat \<times> string \<times> real list \<times> real list"

definition fps :: nat where
  "fps = 30"

definition frame_times :: "nat \<Rightarrow> real list" where
  "frame_times frames = map (\<lambda>i. real i / real fps) [0..<frames + 1]"

definition quat_from_euler :: "real \<Rightarrow> real \<Rightarrow> real \<Rightarrow> real list" where
  "quat_from_euler rx ry rz =
    (let cx = cos (rx / 2); sx = sin (rx / 2);
         cy = cos (ry / 2); sy = sin (ry / 2);
         cz = cos (rz / 2); sz = sin (rz / 2)
     in [sx * cy * cz - cx * sy * sz,
         cx * sy * cz + sx * cy * sz,
         cx * cy * sz - sx * sy * cz,
         cx * cy * cz + sx * sy * sz])"

definition attack_angle :: "real \<Rightarrow> real \<Rightarrow> real" where
  "attack_angle amplitude progress =
    (if progress < 0.3 then - progress / 0.3 * amplitude
     else if progress < 0.5 then - amplitude + (progress - 0.3) / 0.2 * (2 * amplitude)
     else amplitude * (1 - (progress - 0.5) / 0.5))"

definition create_animations ::
  "bone list \<Rightarrow> real \<Rightarrow> error + (string \<times> anim_channel list) list" where
  "create_animations bones mesh_height =
    (let idle_times = frame_times 60;
         walk_times = frame_times 30;
         attack_times = frame_times 15;
         walk_duration = 1;
         attack_duration = 0.5;
         phase = (\<lambda>t. t / walk_duration * 2 * pi);
         spine_rotations =
           concat (map (\<lambda>t. quat_from_euler (sin (t * pi) * 0.02) 0 0) idle_times);
         hip_translations =
           concat (map (\<lambda>t. [0, \<bar>sin (phase t * 2)\<bar> * 0.02 * mesh_height, 0]) walk_times);
         left_leg_rotations =
           concat (map (\<lambda>t. quat_from_euler (sin (phase t) * 0.5) 0 0) walk_times);
         right_leg_rotations =
           concat (map (\<lambda>t. quat_from_euler (sin (phase t + pi) * 0.5) 0 0) walk_times);
         left_arm_rotations =
           concat (map (\<lambda>t. quat_from_euler (sin (phase t + pi) * 0.3) 0 0) walk_times);
         right_arm_rotations =
           concat (map (\<lambda>t. quat_from_euler (sin (phase t) * 0.3) 0 0) walk_times);
         right_arm_attack =
           concat (map (\<lambda>t. quat_from_euler (attack_angle 1.5 (t / attack_duration)) 0 0)
                    attack_times);
         right_forearm_attack =
           concat (map (\<lambda>t. quat_from_euler (attack_angle 0.5 (t / attack_duration)) 0 0)
                    attack_times);
         chest_attack =
           concat (map (\<lambda>t. quat_from_euler 0 (attack_angle 0.3 (t / attack_duration)) 0)
                    attack_times)
     in
     if length bones < 2 then Inl IndexError
     else Inr
       [(''Idle'', [(2, ''rotation'', idle_times, spine_rotations)]),
        (''Walk'', [(1, ''translation'', walk_times, hip_translations),
                    (14, ''rotation'', walk_times, left_leg_rotations),
                    (17, ''rotation'', walk_times, right_leg_rotations),
                    (7, ''rotation'', walk_times, left_arm_rotations),
                    (11, ''rotation'', walk_times, right_arm_rotations)]),
        (''Attack'', [(11, ''rotation'', attack_times, right_arm_attack),
                      (12, ''rotation'', attack_times, right_forearm_attack),
                      (3, ''rotation'', attack_times, chest_attack)])])"

section \<open>add\_skeleton\_to\_glb\<close>

subsection \<open>Locate the mesh, extract the positions\<close>

text \<open>The first node with a \<open>mesh\<close> key: its index and the mesh index it holds.\<close>

fun first_mesh :: "nat \<Rightarrow> node list \<Rightarrow> (nat \<times> nat) option" where
  "first_mesh i [] = None"
| "first_mesh i (n # ns) =
     (case n_mesh n of Some m \<Rightarrow> Some (i, m) | None \<Rightarrow> first_mesh (Suc i) ns)"

text \<open>
  \<open>np.array(positions).min(axis=0).tolist()\<close> and the same with \<open>max\<close>: the
  column-wise bounds of the rows. An empty array raises \<open>ValueError\<close>; a flat list
  of scalars gives two numbers, on which \<open>max_pt[1]\<close> raises \<open>TypeError\<close>.
\<close>

definition columns :: "(real \<Rightarrow> real \<Rightarrow> real) \<Rightarrow> real list list \<Rightarrow> real list" where
  "columns f rows = foldl (\<lambda>acc row. map (\<lambda>(a, b). f a b) (zip acc row)) (hd rows) (tl rows)"

definition bounds :: "accessor_data \<Rightarrow> error + (real list \<times> real list)" where
  "bounds positions =
    (case positions of
       Scalars xs \<Rightarrow>
         (if xs = [] then Inl (ValueError ''zero-size array to reduction operation'')
          else Inl TypeError)
     | Vectors rows \<Rightarrow>
         (if rows = [] then Inl (ValueError ''zero-size array to reduction operation'')
          else Inr (columns min rows, columns max rows)))"

definition num_positions :: "accessor_data \<Rightarrow> nat" where
  "num_positions positions = (case positions of Scalars xs \<Rightarrow> length xs | Vectors rows \<Rightarrow> length rows)"

text \<open>
  The rows as the skin-weight solver subtracts them from the bone positions:
  a row that is not of three numbers cannot be broadcast against them.
\<close>

definition to_vec3 :: "real list \<Rightarrow> error + vec3" where
  "to_vec3 row =
    (case row of [x, y, z] \<Rightarrow> Inr (x, y, z)
     | _ \<Rightarrow> Inl (ValueError ''operands could not be broadcast together''))"

fun to_vec3s :: "real list list \<Rightarrow> error + vec3 list" where
  "to_vec3s [] = Inr []"
| "to_vec3s (row # rows) =
     then_do (to_vec3 row) (\<lambda>v. then_do (to_vec3s rows) (\<lambda>vs. Inr (v # vs)))"

subsection \<open>The joint nodes and their hierarchy\<close>

definition joint_node :: "bone \<Rightarrow> node" where
  "joint_node b =
    (case b of (name, (x, y, z), parent_idx) \<Rightarrow>
      \<lparr> n_name = Some name, n_mesh = None, n_skin = None, n_children = None,
        n_translation = Some [x, y, z], n_rotation = Some [0, 0, 0, 1],
        n_scale = Some [1, 1, 1] \<rparr>)"

definition add_child :: "nat \<Rightarrow> node \<Rightarrow> node" where
  "add_child c parent_node =
    parent_node \<lparr> n_children :=
      Some ((case n_children parent_node of None \<Rightarrow> [] | Some cs \<Rightarrow> cs) @ [c]) \<rparr>"

fun link_children :: "nat list \<Rightarrow> (nat \<times> bone) list \<Rightarrow> node list \<Rightarrow> error + node list" where
  "link_children joint_node_indices [] nodes = Inr nodes"
| "link_children joint_node_indices ((i, (name, pos, parent_idx)) # rest) nodes =
     (if parent_idx \<ge> 0 then
        then_do (index joint_node_indices (nat parent_idx)) (\<lambda>pj.
        then_do (index nodes pj) (\<lambda>parent_node.
        then_do (index joint_node_indices i) (\<lambda>c.
          link_children joint_node_indices rest (nodes[pj := add_child c parent_node]))))
      else link_children joint_node_indices rest nodes)"

definition inverse_bind_matrix :: "bone \<Rightarrow> real list" where
  "inverse_bind_matrix b =
    (case b of (name, (x, y, z), parent_idx) \<Rightarrow>
      [1, 0, 0, 0,
       0, 1, 0, 0,
       0, 0, 1, 0,
       - x, - y, - z, 1])"

subsection \<open>Appending one animation\<close>

text \<open>Python's \<open>min\<close> and \<open>max\<close> of a list: \<open>ValueError\<close> on the empty list.\<close>

definition py_min :: "real list \<Rightarrow> error + real" where
  "py_min xs = (case xs of [] \<Rightarrow> Inl (ValueError ''min() arg is an empty sequence'')
                | x # rest \<Rightarrow> Inr (fold (\<lambda>y m. if y < m then y else m) rest x))"

definition py_max :: "real list \<Rightarrow> error + real" where
  "py_max xs = (case xs of [] \<Rightarrow> Inl (ValueError ''max() arg is an empty sequence'')
                | x # rest \<Rightarrow> Inr (fold (\<lambda>y m. if y > m then y else m) rest x))"

definition plain_view :: "nat \<Rightarrow> nat \<Rightarrow> bufferView" where
  "plain_view byte_offset byte_length =
     \<lparr> bv_buffer = 0, bv_byteOffset = Some byte_offset, bv_byteLength = byte_length,
       bv_byteStride = None \<rparr>"

definition times_accessor :: "nat \<Rightarrow> real list \<Rightarrow> error + accessor" where
  "times_accessor times_bv_idx time_list =
     then_do (py_min time_list) (\<lambda>lo. then_do (py_max time_list) (\<lambda>hi.
       Inr \<lparr> acc_bufferView = times_bv_idx, acc_byteOffset = None, acc_componentType = 5126,
             acc_count = length time_list, acc_type = ''SCALAR'',
             acc_min = Some [lo], acc_max = Some [hi] \<rparr>))"

definition values_accessor :: "nat \<Rightarrow> string \<Rightarrow> real list \<Rightarrow> accessor" where
  "values_accessor values_bv_idx path time_list =
     \<lparr> acc_bufferView = values_bv_idx, acc_byteOffset = None, acc_componentType = 5126,
       acc_count = length time_list,
       acc_type = (if path = ''rotation'' then ''VEC4'' else ''VEC3''),
       acc_min = None, acc_max = None \<rparr>"

text \<open>
  The body of the loop over the channels of one clip. The state is the document, the
  payload, and the clip's samplers and channels so far.
\<close>

type_synonym clip_state = "gltf \<times> byte list \<times> sampler list \<times> channel list"

definition append_channel ::
  "(real \<Rightarrow> 32 word) \<Rightarrow> nat list \<Rightarrow> clip_state \<Rightarrow> anim_channel \<Rightarrow> error + clip_state" where
  "append_channel f32_bits joint_node_indices st c =
    (case st of (gltf, bin_data, samplers, anim_channels) \<Rightarrow>
     case c of (bone_idx, path, time_list, values) \<Rightarrow>
      then_do (add_to_buffer f32_bits bin_data (Floats time_list))
        (\<lambda>(bin1, times_offset, times_size).
      let times_bv_idx = length (g_bufferViews gltf);
          gltf1 = gltf \<lparr> g_bufferViews := g_bufferViews gltf @ [plain_view times_offset times_size] \<rparr>;
          times_acc_idx = length (g_accessors gltf1)
      in
      then_do (times_accessor times_bv_idx time_list) (\<lambda>times_acc.
      let gltf2 = gltf1 \<lparr> g_accessors := g_accessors gltf1 @ [times_acc] \<rparr> in
      then_do (add_to_buffer f32_bits bin1 (Floats values))
        (\<lambda>(bin2, values_offset, values_size).
      let values_bv_idx = length (g_bufferViews gltf2);
          gltf3 = gltf2 \<lparr> g_bufferViews := g_bufferViews gltf2 @ [plain_view values_offset values_size] \<rparr>;
          values_acc_idx = length (g_accessors gltf3);
          gltf4 = gltf3 \<lparr> g_accessors := g_accessors gltf3 @ [values_accessor values_bv_idx path time_list] \<rparr>;
          sampler_idx = length samplers;
          samplers' = samplers @ [\<lparr> sm_input = times_acc_idx, sm_output = values_acc_idx,
                                    sm_interpolation = ''LINEAR'' \<rparr>]
      in
      then_do (index joint_node_indices bone_idx) (\<lambda>target.
        Inr (gltf4, bin2, samplers',
             anim_channels @ [\<lparr> ch_sampler = sampler_idx, ch_node = target, ch_path = path \<rparr>]))))))"

fun append_channels ::
  "(real \<Rightarrow> 32 word) \<Rightarrow> nat list \<Rightarrow> clip_state \<Rightarrow> anim_channel list \<Rightarrow> error + clip_state" where
  "append_channels f32_bits joint_node_indices st [] = Inr st"
| "append_channels f32_bits joint_node_indices st (c # cs) =
     then_do (append_channel f32_bits joint_node_indices st c) (\<lambda>st'.
       append_channels f32_bits joint_node_indices st' cs)"

definition append_animation ::
  "(real \<Rightarrow> 32 word) \<Rightarrow> nat list \<Rightarrow> gltf \<times> byte list \<Rightarrow> string \<times> anim_channel list
    \<Rightarrow> error + (gltf \<times> byte list)" where
  "append_animation f32_bits joint_node_indices st clip =
    (case st of (gltf, bin_data) \<Rightarrow> case clip of (anim_name, channels) \<Rightarrow>
      then_do (append_channels f32_bits joint_node_indices (gltf, bin_data, [], []) channels)
        (\<lambda>(gltf', bin', samplers, anim_channels).
          Inr (gltf' \<lparr> g_animations :=
                  Some ((case g_animations gltf' of None \<Rightarrow> [] | Some as \<Rightarrow> as)
                        @ [\<lparr> a_name = anim_name, a_samplers = samplers,
                               a_channels = anim_channels \<rparr>]) \<rparr>, bin')))"

fun append_animations ::
  "(real \<Rightarrow> 32 word) \<Rightarrow> nat list \<Rightarrow> gltf \<times> byte list \<Rightarrow> (string \<times> anim_channel list) list
    \<Rightarrow> error + (gltf \<times> byte list)" where
  "append_animations f32_bits joint_node_indices st [] = Inr st"
| "append_animations f32_bits joint_node_indices st (clip # clips) =
     then_do (append_animation f32_bits joint_node_indices st clip) (\<lambda>st'.
       append_animations f32_bits joint_node_indices st' clips)"

subsection \<open>The mutation of the document\<close>

text \<open>
  \<open>primitive\<close> is the object \<open>gltf['meshes'][mesh_idx]['primitives'][0]\<close> itself, so
  an assignment to \<open>primitive['attributes'][k]\<close> changes the document; both indices
  were read before and are in range.
\<close>

definition set_attribute :: "nat \<Rightarrow> string \<Rightarrow> nat \<Rightarrow> mesh list \<Rightarrow> mesh list" where
  "set_attribute mesh_idx k v meshes =
    (let mesh = meshes ! mesh_idx;
         primitive = m_primitives mesh ! 0
     in meshes[mesh_idx := mesh \<lparr> m_primitives :=
          (m_primitives mesh)[0 := primitive \<lparr> p_attributes := (p_attributes primitive)(k \<mapsto> v) \<rparr>] \<rparr>])"

definition add_root_to_scene :: "nat \<Rightarrow> scene list option \<Rightarrow> scene list option" where
  "add_root_to_scene root_skeleton_node scenes =
    (case scenes of
       None \<Rightarrow> None
     | Some [] \<Rightarrow> Some []
     | Some (sc # rest) \<Rightarrow>
         (let ns = (case sc_nodes sc of None \<Rightarrow> [] | Some ns \<Rightarrow> ns) in
          Some (sc \<lparr> sc_nodes := Some (if root_skeleton_node \<in> set ns then ns
                                        else ns @ [root_skeleton_node]) \<rparr> # rest)))"

definition strided_view :: "nat \<Rightarrow> nat \<Rightarrow> nat \<Rightarrow> bufferView" where
  "strided_view byte_offset byte_length stride =
     \<lparr> bv_buffer = 0, bv_byteOffset = Some byte_offset, bv_byteLength = byte_length,
       bv_byteStride = Some stride \<rparr>"

definition plain_accessor :: "nat \<Rightarrow> nat \<Rightarrow> nat \<Rightarrow> string \<Rightarrow> accessor" where
  "plain_accessor bv_idx component_type n shape =
     \<lparr> acc_bufferView = bv_idx, acc_byteOffset = None, acc_componentType = component_type,
       acc_count = n, acc_type = shape, acc_min = None, acc_max = None \<rparr>"

text \<open>
  Everything from \<open>base_accessor_idx = len(gltf['accessors'])\<close> to the update of the
  scene: the joint nodes, the inverse bind matrices, the skin, the two vertex
  attributes, the animations, the buffer length, the scene root.
\<close>

definition rig ::
  "(real \<Rightarrow> 32 word) \<Rightarrow> gltf \<Rightarrow> byte list \<Rightarrow> nat \<Rightarrow> nat \<Rightarrow> nat \<Rightarrow> bone list \<Rightarrow> nat list \<Rightarrow> real list
    \<Rightarrow> (string \<times> anim_channel list) list \<Rightarrow> error + (gltf \<times> byte list)" where
  "rig f32_bits gltf bin_data mesh_node_idx mesh_idx num_verts bones joints_data weights_data
       animations =
    (let base_node_idx = length (g_nodes gltf);
         joint_node_indices = map (\<lambda>i. base_node_idx + i) [0..<length bones];
         nodes1 = g_nodes gltf @ map joint_node bones
     in
     then_do (link_children joint_node_indices (zip [0..<length bones] bones) nodes1) (\<lambda>nodes2.
     let gltf1 = gltf \<lparr> g_nodes := nodes2 \<rparr>;
         inverse_bind_matrices = concat (map inverse_bind_matrix bones)
     in
     then_do (add_to_buffer f32_bits bin_data (Floats inverse_bind_matrices))
       (\<lambda>(bin1, ibm_offset, ibm_size).
     let ibm_buffer_view_idx = length (g_bufferViews gltf1);
         gltf2 = gltf1 \<lparr> g_bufferViews := g_bufferViews gltf1 @ [plain_view ibm_offset ibm_size] \<rparr>;
         ibm_accessor_idx = length (g_accessors gltf2);
         gltf3 = gltf2 \<lparr> g_accessors := g_accessors gltf2
                   @ [plain_accessor ibm_buffer_view_idx 5126 (length bones) ''MAT4''] \<rparr>;
         skins = (case g_skins gltf3 of None \<Rightarrow> [] | Some ss \<Rightarrow> ss);
         skin_idx = length skins
     in
     then_do (index joint_node_indices 0) (\<lambda>root_skeleton_node.
     let gltf4 = gltf3 \<lparr> g_skins := Some (skins
                   @ [\<lparr> s_inverseBindMatrices = Some ibm_accessor_idx,
                         s_joints = joint_node_indices,
                         s_skeleton = Some root_skeleton_node,
                         s_name = Some ''Armature'' \<rparr>]) \<rparr>;
         gltf5 = gltf4 \<lparr> g_nodes := (g_nodes gltf4)
                   [mesh_node_idx := (g_nodes gltf4 ! mesh_node_idx) \<lparr> n_skin := Some skin_idx \<rparr>] \<rparr>
     in
     then_do (add_to_buffer f32_bits bin1 (UBytes joints_data))
       (\<lambda>(bin2, joints_offset, joints_size).
     let joints_bv_idx = length (g_bufferViews gltf5);
         gltf6 = gltf5 \<lparr> g_bufferViews := g_bufferViews gltf5
                   @ [strided_view joints_offset joints_size 4] \<rparr>;
         joints_acc_idx = length (g_accessors gltf6);
         gltf7 = gltf6 \<lparr> g_accessors := g_accessors gltf6
                   @ [plain_accessor joints_bv_idx 5121 num_verts ''VEC4''] \<rparr>;
         gltf8 = gltf7 \<lparr> g_meshes := set_attribute mesh_idx ''JOINTS_0'' joints_acc_idx (g_meshes gltf7) \<rparr>
     in
     then_do (add_to_buffer f32_bits bin2 (Floats weights_data))
       (\<lambda>(bin3, weights_offset, weights_size).
     let weights_bv_idx = length (g_bufferViews gltf8);
         gltf9 = gltf8 \<lparr> g_bufferViews := g_bufferViews gltf8
                   @ [strided_view weights_offset weights_size 16] \<rparr>;
         weights_acc_idx = length (g_accessors gltf9);
         gltf10 = gltf9 \<lparr> g_accessors := g_accessors gltf9
                   @ [plain_accessor weights_bv_idx 5126 num_verts ''VEC4''] \<rparr>;
         gltf11 = gltf10 \<lparr> g_meshes := set_attribute mesh_idx ''WEIGHTS_0'' weights_acc_idx (g_meshes gltf10) \<rparr>;
         gltf12 = gltf11 \<lparr> g_animations :=
                   Some (case g_animations gltf11 of None \<Rightarrow> [] | Some as \<Rightarrow> as) \<rparr>
     in
     then_do (append_animations f32_bits joint_node_indices (gltf12, bin3) animations)
       (\<lambda>(gltf13, bin4).
     then_do (index (g_buffers gltf13) 0) (\<lambda>buffer0.
     let gltf14 = gltf13 \<lparr> g_buffers := (g_buffers gltf13)
                    [0 := buffer0 \<lparr> b_byteLength := length bin4 \<rparr>] \<rparr>;
         gltf15 = gltf14 \<lparr> g_scenes := add_root_to_scene root_skeleton_node (g_scenes gltf14) \<rparr>
     in Inr (gltf15, bin4)))))))))"

definition rows_of :: "accessor_data \<Rightarrow> real list list" where
  "rows_of positions = (case positions of Vectors rows \<Rightarrow> rows | Scalars xs \<Rightarrow> map (\<lambda>x. [x]) xs)"

text \<open>
  The body of \<open>add_skeleton_to_glb\<close> between \<open>read_glb\<close> and \<open>write_glb\<close>, on the
  document and the payload in memory.
\<close>

definition add_skeleton ::
  "(32 word \<Rightarrow> real) \<Rightarrow> (real \<Rightarrow> 32 word) \<Rightarrow> (real list \<Rightarrow> nat list) \<Rightarrow> gltf \<Rightarrow> byte list
    \<Rightarrow> error + (gltf \<times> byte list)" where
  "add_skeleton f32_val f32_bits argsort gltf bin_data =
    (case first_mesh 0 (g_nodes gltf) of
       None \<Rightarrow> Inl (ValueError ''No mesh found in model'')
     | Some (mesh_node_idx, mesh_idx) \<Rightarrow>
         then_do (index (g_meshes gltf) mesh_idx) (\<lambda>mesh.
         then_do (index (m_primitives mesh) 0) (\<lambda>primitive.
         case p_attributes primitive ''POSITION'' of
           None \<Rightarrow> Inl (KeyError ''POSITION'')
         | Some pos_accessor_idx \<Rightarrow>
             then_do (get_accessor_data f32_val gltf bin_data pos_accessor_idx) (\<lambda>positions.
             then_do (bounds positions) (\<lambda>(min_pt, max_pt).
             then_do (index max_pt 1) (\<lambda>max_y.
             then_do (index min_pt 1) (\<lambda>min_y.
             let mesh_height = max_y - min_y in
             then_do (create_humanoid_skeleton (min_pt, max_pt)) (\<lambda>bones.
             then_do (then_do (to_vec3s (rows_of positions)) (\<lambda>ps.
                        compute_skin_weights argsort ps bones))
               (\<lambda>(joints_data, weights_data).
             then_do (create_animations bones mesh_height) (\<lambda>animations.
               rig f32_bits gltf bin_data mesh_node_idx mesh_idx (num_positions positions)
                 bones joints_data weights_data animations))))))))))"

text \<open>
  The whole run on the bytes of the input file: the outcome, and the output file
  (\<open>None\<close> when \<open>write_glb\<close> was never called and nothing was written).
\<close>

definition add_skeleton_to_glb ::
  "(byte list \<Rightarrow> gltf option) \<Rightarrow> (gltf \<Rightarrow> byte list) \<Rightarrow> (32 word \<Rightarrow> real) \<Rightarrow> (real \<Rightarrow> 32 word)
    \<Rightarrow> (real list \<Rightarrow> nat list) \<Rightarrow> byte list \<Rightarrow> (error + unit) \<times> byte list option" where
  "add_skeleton_to_glb json_loads json_dumps f32_val f32_bits argsort input_file =
    (case read_glb json_loads input_file of
       Inl e \<Rightarrow> (Inl e, None)
     | Inr (gltf, bin_data) \<Rightarrow>
         (case add_skeleton f32_val f32_bits argsort gltf bin_data of
            Inl e \<Rightarrow> (Inl e, None)
          | Inr (gltf', bin_data') \<Rightarrow>
              (case write_glb json_dumps gltf' bin_data' of
                 Inl e \<Rightarrow> (Inl e, Some [])
               | Inr output_file \<Rightarrow> (Inr (), Some output_file))))"

section \<open>Concrete inputs\<close>

text \<open>
  \<open>json_loads\<close> and \<open>json_dumps\<close> are parameters of the model. Where a statement is
  evaluated on a concrete file, \<open>loads_only text doc\<close> stands in for \<open>json.loads\<close>: it
  knows the one JSON text \<open>text\<close>, followed by the spaces \<open>write_glb\<close> pads with (which
  \<open>json.loads\<close> skips), and gives the document \<open>doc\<close> that text denotes.
\<close>

definition utf8 :: "string \<Rightarrow> byte list" where
  "utf8 s = map of_char s"

definition loads_only :: "string \<Rightarrow> 'doc \<Rightarrow> byte list \<Rightarrow> 'doc option" where
  "loads_only text doc bs =
     (if takeWhile (\<lambda>b. b \<noteq> 0x20) bs = utf8 text \<and> set (dropWhile (\<lambda>b. b \<noteq> 0x20) bs) \<subseteq> {0x20}
      then Some doc else None)"

text \<open>
  Two containers whose only chunk is the JSON text \<open>{}\<close> padded to four bytes: the
  first declares version 1, the second declares a total length of 20 bytes, which
  ends before its chunk of 4 bytes does.
\<close>

definition glb_version1 :: "byte list" where
  "glb_version1 = [0x67, 0x6C, 0x54, 0x46,  1, 0, 0, 0,  24, 0, 0, 0,
                   4, 0, 0, 0,  0x4A, 0x53, 0x4F, 0x4E,  0x7B, 0x7D, 0x20, 0x20]"

definition glb_overrun :: "byte list" where
  "glb_overrun = [0x67, 0x6C, 0x54, 0x46,  2, 0, 0, 0,  20, 0, 0, 0,
                  4, 0, 0, 0,  0x4A, 0x53, 0x4F, 0x4E,  0x7B, 0x7D, 0x20, 0x20]"

text \<open>The same container with the first byte of the magic tag changed.\<close>

definition glb_bad_magic :: "byte list" where
  "glb_bad_magic = [0x68, 0x6C, 0x54, 0x46,  2, 0, 0, 0,  24, 0, 0, 0,
                    4, 0, 0, 0,  0x4A, 0x53, 0x4F, 0x4E,  0x7B, 0x7D, 0x20, 0x20]"

text \<open>A container whose JSON chunk does not parse.\<close>

definition glb_bad_json :: "byte list" where
  "glb_bad_json = [0x67, 0x6C, 0x54, 0x46,  2, 0, 0, 0,  24, 0, 0, 0,
                   4, 0, 0, 0,  0x4A, 0x53, 0x4F, 0x4E,  0x7B, 0x7B, 0x20, 0x20]"

text \<open>A document with one node and no mesh, and a container that holds it.\<close>

definition no_mesh_text :: string where
  \<open>no_mesh_text = ''{"nodes":[{"name":"Empty"}],"meshes":[],"accessors":[],"bufferViews":[],"buffers":[]}''\<close>

definition no_mesh_doc :: gltf where
  "no_mesh_doc =
    \<lparr> g_nodes = [\<lparr> n_name = Some ''Empty'', n_mesh = None, n_skin = None, n_children = None,
                    n_translation = None, n_rotation = None, n_scale = None \<rparr>],
      g_meshes = [], g_accessors = [], g_bufferViews = [], g_buffers = [],
      g_skins = None, g_animations = None, g_scenes = None \<rparr>"

definition glb_of_text :: "string \<Rightarrow> byte list \<Rightarrow> byte list" where
  "glb_of_text text payload =
    (let json_str = pad4 0x20 (utf8 text); bin_padded = pad4 0x00 payload in
     le_bytes 4 GLB_MAGIC @ le_bytes 4 2
     @ le_bytes 4 (12 + 8 + length json_str + 8 + length bin_padded)
     @ le_bytes 4 (length json_str) @ le_bytes 4 0x4E4F534A @ json_str
     @ le_bytes 4 (length bin_padded) @ le_bytes 4 0x004E4942 @ bin_padded)"

text \<open>An \<open>argsort\<close> that satisfies \<open>argsort_ok\<close>: a stable sort of the indices by key.\<close>

definition stable_argsort :: "real list \<Rightarrow> nat list" where
  "stable_argsort keys = sort_key (\<lambda>i. keys ! i) [0..<length keys]"

section \<open>Properties\<close>

lemma pad_count: "(4 - n mod 4) mod 4 = (if n mod 4 = 0 then 0 else 4 - n mod (4::nat))"
  by simp

lemma pad4_eq: "pad4 fill bs = bs @ replicate ((4 - length bs mod 4) mod 4) fill"
proof (induction fill bs rule: pad4.induct)
  case (1 fill bs)
  show ?case
  proof (cases "length bs mod 4 = 0")
    case True
    then show ?thesis by (simp add: pad4.simps [of fill bs])
  next
    case False
    have "length bs mod 4 < 4" by simp
    then consider "length bs mod 4 = 1" | "length bs mod 4 = 2" | "length bs mod 4 = 3"
      using False by linarith
    then have "(4 - length bs mod 4) mod 4 = Suc ((4 - Suc (length bs) mod 4) mod 4)"
      by cases (simp_all add: mod_Suc)
    with False 1 show ?thesis
      by (simp add: pad4.simps [of fill bs] replicate_app_Cons_same)
  qed
qed

lemma aligned_after_pad: "(n + (4 - n mod 4) mod 4) mod 4 = (0::nat)"
proof (cases "n mod 4 = 0")
  case True
  then show ?thesis by simp
next
  case False
  have "n + 4 - n mod 4 = 4 * (n div 4) + 4"
    using mod_less_eq_dividend [of n 4] minus_mod_eq_mult_div [of n 4] by linarith
  with False show ?thesis by (simp add: pad_count)
qed

lemma length_pad4_mod: "length (pad4 fill bs) mod 4 = 0"
  by (simp add: pad4_eq aligned_after_pad)

lemma length_le_bytes [simp]: "length (le_bytes k n) = k"
  by (simp add: le_bytes_def)

lemma le_bytes_4:
  "le_bytes 4 n = [of_nat n, of_nat (n div 256), of_nat (n div 65536), of_nat (n div 16777216)]"
  by (simp add: le_bytes_def upt_conv_Cons)

lemma unat_byte_of_nat: "unat (of_nat n :: byte) = n mod 256"
  by (simp add: unat_of_nat)

lemma unpack_I_le_bytes: "n < 2 ^ 32 \<Longrightarrow> unpack_I (le_bytes 4 n) = n"
proof -
  assume a: "n < 2 ^ 32"
  define q1 where "q1 = n div 256"
  define q2 where "q2 = q1 div 256"
  define q3 where "q3 = q2 div 256"
  have e: "n div 65536 = q2" "n div 16777216 = q3"
    by (simp_all add: q1_def q2_def q3_def div_mult2_eq)
  have "q3 < 256" using a unfolding e [symmetric] by simp
  then have d: "q3 mod 256 = q3" by simp
  have "unpack_I (le_bytes 4 n) =
      n mod 256 + 256 * (q1 mod 256 + 256 * (q2 mod 256 + 256 * q3))"
    by (simp add: le_bytes_4 unpack_I_def unat_byte_of_nat d e q1_def [symmetric])
  also have "\<dots> = n" unfolding q1_def q2_def q3_def by simp
  finally show ?thesis .
qed

text \<open>Reading a file laid out as \<open>write_glb\<close> lays it out, whatever the version says.\<close>

lemma read_glb_layout:
  assumes small: "tot < 2 ^ 32" "length J < 2 ^ 32" "length B < 2 ^ 32"
    and tell: "20 + length J < tot"
    and tags: "length T1 = 4" "length T2 = 4"
  shows "read_glb json_loads (le_bytes 4 GLB_MAGIC @ le_bytes 4 v @ le_bytes 4 tot
            @ le_bytes 4 (length J) @ T1 @ J @ le_bytes 4 (length B) @ T2 @ B)
         = (case json_loads J of None \<Rightarrow> Inl JSONDecodeError | Some d \<Rightarrow> Inr (d, B))"
proof -
  define out where "out = le_bytes 4 GLB_MAGIC @ le_bytes 4 v @ le_bytes 4 tot
            @ le_bytes 4 (length J) @ T1 @ J @ le_bytes 4 (length B) @ T2 @ B"
  have lay: "take 12 out = le_bytes 4 GLB_MAGIC @ le_bytes 4 v @ le_bytes 4 tot"
    "take 8 (drop 12 out) = le_bytes 4 (length J) @ T1"
    "take (length J) (drop 20 out) = J"
    "take 8 (drop (20 + length J) out) = le_bytes 4 (length B) @ T2"
    "drop (28 + length J) out = B"
    using tags by (simp_all add: out_def)
  have magic: "unpack_I (le_bytes 4 GLB_MAGIC) = GLB_MAGIC"
    by (rule unpack_I_le_bytes) (simp add: GLB_MAGIC_def)
  have "read_glb json_loads out
      = (case json_loads J of None \<Rightarrow> Inl JSONDecodeError | Some d \<Rightarrow> Inr (d, B))"
    unfolding read_glb_def Let_def
    using small tell tags
    by (simp add: lay magic unpack_I_le_bytes split: option.splits)
  then show ?thesis by (simp only: out_def)
qed

lemma write_glb_layout:
  assumes "28 + length (pad4 0x20 (json_dumps D)) + length (pad4 0x00 P) < 2 ^ 32"
  shows "write_glb json_dumps D P =
    Inr (le_bytes 4 GLB_MAGIC @ le_bytes 4 2
         @ le_bytes 4 (12 + 8 + length (pad4 0x20 (json_dumps D)) + 8 + length (pad4 0x00 P))
         @ le_bytes 4 (length (pad4 0x20 (json_dumps D))) @ le_bytes 4 0x4E4F534A
         @ pad4 0x20 (json_dumps D)
         @ le_bytes 4 (length (pad4 0x00 P)) @ le_bytes 4 0x004E4942 @ pad4 0x00 P)"
  using assms by (simp add: write_glb_def Let_def pack_I_def)

lemma read_write_glb:
  assumes fits: "28 + length (pad4 0x20 (json_dumps D)) + length (pad4 0x00 P) < 2 ^ 32"
  shows "\<exists>out. write_glb json_dumps D P = Inr out
           \<and> read_glb json_loads out
               = (case json_loads (pad4 0x20 (json_dumps D)) of
                    None \<Rightarrow> Inl JSONDecodeError | Some d \<Rightarrow> Inr (d, pad4 0x00 P))"
proof -
  have "read_glb json_loads (le_bytes 4 GLB_MAGIC @ le_bytes 4 2
         @ le_bytes 4 (12 + 8 + length (pad4 0x20 (json_dumps D)) + 8 + length (pad4 0x00 P))
         @ le_bytes 4 (length (pad4 0x20 (json_dumps D))) @ le_bytes 4 0x4E4F534A
         @ pad4 0x20 (json_dumps D)
         @ le_bytes 4 (length (pad4 0x00 P)) @ le_bytes 4 0x004E4942 @ pad4 0x00 P)
      = (case json_loads (pad4 0x20 (json_dumps D)) of
                    None \<Rightarrow> Inl JSONDecodeError | Some d \<Rightarrow> Inr (d, pad4 0x00 P))"
    using fits by (intro read_glb_layout) simp_all
  with write_glb_layout [of json_dumps D P, OF fits] show ?thesis by simp
qed

text \<open>
  C3. Round trip of the container codec: for a document \<open>D\<close> that the JSON library
  reads back from its own padded output, and a payload \<open>P\<close>, with a total length that
  fits the 32-bit header field, \<open>write_glb\<close> succeeds and \<open>read_glb\<close> of the bytes it
  wrote gives \<open>D\<close> and \<open>P\<close> followed by the zero bytes that pad it to a multiple of four.
\<close>

theorem glb_round_trip:
  assumes loads: "json_loads (pad4 0x20 (json_dumps D)) = Some D"
    and fits: "28 + length (pad4 0x20 (json_dumps D)) + length (pad4 0x00 P) < 2 ^ 32"
  shows "\<exists>out. write_glb json_dumps D P = Inr out
           \<and> read_glb json_loads out
               = Inr (D, P @ replicate ((4 - length P mod 4) mod 4) 0x00)"
  using read_write_glb [of json_dumps D P json_loads, OF fits] loads
  by (simp add: pad4_eq [of 0 P])

lemma utf8_braces: "utf8 ''{}'' = [0x7B, 0x7D]"
  by (simp add: utf8_def)

lemma pad4_2: "pad4 fill [a, b] = [a, b, fill, fill]"
  by (simp add: pad4.simps)

text \<open>The round trip at the document \<open>{}\<close> and a payload of five bytes.\<close>

theorem glb_round_trip_witness:
  "\<exists>out. write_glb (\<lambda>d. utf8 ''{}'') () [1, 2, 3, 4, 5] = Inr out
     \<and> read_glb (loads_only ''{}'' ()) out = Inr ((), [1, 2, 3, 4, 5, 0, 0, 0])"
proof -
  have 1: "loads_only ''{}'' () (pad4 0x20 (utf8 ''{}'')) = Some ()"
    by (simp add: loads_only_def utf8_braces pad4_2)
  have 2: "28 + length (pad4 0x20 (utf8 ''{}'')) + length (pad4 0x00 [1, 2, 3, 4, 5 :: byte]) < (2::nat) ^ 32"
    by (simp add: utf8_braces pad4.simps)
  have 3: "replicate ((4 - length [1, 2, 3, 4, 5 :: byte] mod 4) mod 4) (0 :: byte) = [0, 0, 0]"
  proof -
    have "(4 - length [1, 2, 3, 4, 5 :: byte] mod 4) mod 4 = 3" by simp
    then show ?thesis by (simp only: numeral_3_eq_3 replicate.simps)
  qed
  show ?thesis
    using glb_round_trip [of "loads_only ''{}'' ()" "\<lambda>d. utf8 ''{}''" "()" "[1, 2, 3, 4, 5]", OF 1 2]
    unfolding 3 by simp
qed

lemma first_mesh_None: "first_mesh i ns = None \<longleftrightarrow> (\<forall>n \<in> set ns. n_mesh n = None)"
  by (induction ns arbitrary: i) (auto split: option.splits)

lemma add_skeleton_no_mesh:
  "\<forall>n \<in> set (g_nodes gltf). n_mesh n = None \<Longrightarrow>
     add_skeleton f32_val f32_bits argsort gltf bin_data = Inl (ValueError ''No mesh found in model'')"
  by (simp add: add_skeleton_def first_mesh_None [THEN iffD2])

lemma read_glb_bad_magic:
  "unpack_I (take 4 file) \<noteq> GLB_MAGIC \<Longrightarrow>
     read_glb json_loads file = (if length file < 12 then Inl StructError
                                 else Inl (ValueError ''Not a valid GLB file''))"
  by (auto simp: read_glb_def Let_def min_def)

lemma read_glb_bad_json:
  "json_loads (take (unpack_I (take 4 (drop 12 file))) (drop 20 file)) = None \<Longrightarrow>
     read_glb json_loads file \<in> {Inl StructError, Inl (ValueError ''Not a valid GLB file''),
        Inl JSONDecodeError}"
  by (auto simp: read_glb_def Let_def take_drop)

text \<open>
  C2, as amended. \<open>read_glb\<close> checks the magic tag and nothing else of the header.
  Whenever the first four bytes are not the magic tag it fails (\<open>struct.error\<close> on a
  file shorter than the header, \<open>ValueError\<close> otherwise), and the run writes no output
  file. Whenever the bytes it reads as the JSON chunk do not parse it fails, again
  with no output file.
\<close>

theorem read_glb_validation:
  "(unpack_I (take 4 file) \<noteq> GLB_MAGIC \<longrightarrow>
      read_glb json_loads file = (if length file < 12 then Inl StructError
                                  else Inl (ValueError ''Not a valid GLB file''))
      \<and> add_skeleton_to_glb json_loads json_dumps f32_val f32_bits argsort file
          = (if length file < 12 then Inl StructError
             else Inl (ValueError ''Not a valid GLB file''), None))
   \<and> (json_loads (take (unpack_I (take 4 (drop 12 file))) (drop 20 file)) = None \<longrightarrow>
      (\<exists>e \<in> {StructError, ValueError ''Not a valid GLB file'', JSONDecodeError}.
         read_glb json_loads file = Inl e
         \<and> add_skeleton_to_glb json_loads json_dumps f32_val f32_bits argsort file = (Inl e, None)))"
proof (intro conjI impI)
  assume m: "unpack_I (take 4 file) \<noteq> GLB_MAGIC"
  show r: "read_glb json_loads file = (if length file < 12 then Inl StructError
                                  else Inl (ValueError ''Not a valid GLB file''))"
    by (rule read_glb_bad_magic [OF m])
  show "add_skeleton_to_glb json_loads json_dumps f32_val f32_bits argsort file
          = (if length file < 12 then Inl StructError
             else Inl (ValueError ''Not a valid GLB file''), None)"
    by (simp add: add_skeleton_to_glb_def r)
next
  assume "json_loads (take (unpack_I (take 4 (drop 12 file))) (drop 20 file)) = None"
  then have "read_glb json_loads file \<in> {Inl StructError,
      Inl (ValueError ''Not a valid GLB file''), Inl JSONDecodeError}"
    by (rule read_glb_bad_json)
  then show "\<exists>e \<in> {StructError, ValueError ''Not a valid GLB file'', JSONDecodeError}.
         read_glb json_loads file = Inl e
         \<and> add_skeleton_to_glb json_loads json_dumps f32_val f32_bits argsort file = (Inl e, None)"
    by (auto simp: add_skeleton_to_glb_def)
qed

lemma unpack_I_4: "unpack_I [a, b, c, d] = unat a + 256 * (unat b + 256 * (unat c + 256 * unat d))"
  by (simp add: unpack_I_def)

text \<open>The two failures on concrete containers.\<close>

theorem read_glb_validation_witness:
  "unpack_I (take 4 glb_bad_magic) \<noteq> GLB_MAGIC
   \<and> add_skeleton_to_glb (loads_only no_mesh_text no_mesh_doc) (\<lambda>d. utf8 no_mesh_text)
        (\<lambda>w. 0) (\<lambda>x. 0) (\<lambda>ws. [0..<length ws]) glb_bad_magic
      = (Inl (ValueError ''Not a valid GLB file''), None)
   \<and> read_glb (loads_only no_mesh_text no_mesh_doc) glb_bad_json = Inl JSONDecodeError
   \<and> add_skeleton_to_glb (loads_only no_mesh_text no_mesh_doc) (\<lambda>d. utf8 no_mesh_text)
        (\<lambda>w. 0) (\<lambda>x. 0) (\<lambda>ws. [0..<length ws]) glb_bad_json
      = (Inl JSONDecodeError, None)"
proof -
  have m: "unpack_I (take 4 glb_bad_magic) \<noteq> GLB_MAGIC"
    by (simp add: glb_bad_magic_def unpack_I_4 GLB_MAGIC_def)
  have j: "loads_only no_mesh_text no_mesh_doc
      (take (unpack_I (take 4 (drop 12 glb_bad_json))) (drop 20 glb_bad_json)) = None"
    by (simp add: glb_bad_json_def unpack_I_4 loads_only_def utf8_def no_mesh_text_def)
  have r: "read_glb (loads_only no_mesh_text no_mesh_doc) glb_bad_json = Inl JSONDecodeError"
    using j by (simp add: read_glb_def glb_bad_json_def unpack_I_4 GLB_MAGIC_def)
  have l: "\<not> length glb_bad_magic < 12" by (simp add: glb_bad_magic_def)
  show ?thesis
    using read_glb_validation [of glb_bad_magic "loads_only no_mesh_text no_mesh_doc"
        "\<lambda>d. utf8 no_mesh_text" "\<lambda>w. 0" "\<lambda>x. 0" "\<lambda>ws. [0..<length ws]"]
      read_glb_validation [of glb_bad_json "loads_only no_mesh_text no_mesh_doc"
        "\<lambda>d. utf8 no_mesh_text" "\<lambda>w. 0" "\<lambda>x. 0" "\<lambda>ws. [0..<length ws]"]
      m j r l
    by auto
qed

text \<open>
  C2 as stated fails: a container that declares version 1 is decoded, and so is one
  whose chunk of 4 bytes starts at byte 20 of a container that declares 20 bytes in all.
\<close>

theorem read_glb_unchecked_fields:
  "read_glb (loads_only ''{}'' ()) glb_version1 = Inr ((), [])
   \<and> unpack_I (take 4 (drop 4 glb_version1)) = 1
   \<and> read_glb (loads_only ''{}'' ()) glb_overrun = Inr ((), [])
   \<and> unpack_I (take 4 (drop 8 glb_overrun)) = 20
   \<and> 20 + unpack_I (take 4 (drop 12 glb_overrun)) = 24"
  by (simp add: read_glb_def glb_version1_def glb_overrun_def unpack_I_4 GLB_MAGIC_def
      loads_only_def utf8_braces)

text \<open>
  C6. Alignment: the offset \<open>add_to_buffer\<close> returns is a multiple of 4, whatever the
  payload and the data (the payload so far is kept, the data start at the offset);
  and the payload \<open>write_glb\<close> writes, whose length it writes into the header of the
  binary chunk, has a length that is a multiple of 4 and starts with the payload given.
\<close>

theorem add_to_buffer_aligned:
  "(add_to_buffer f32_bits bin_data d = Inr (bin', offset, n) \<longrightarrow>
      offset mod 4 = 0 \<and> length bin_data \<le> offset \<and> take (length bin_data) bin' = bin_data
      \<and> length bin' = offset + n)
   \<and> (write_glb json_dumps gltf bin_data = Inr out \<longrightarrow>
      (let j = length (pad4 0x20 (json_dumps gltf)) in
       unpack_I (take 4 (drop (20 + j) out)) = length (drop (28 + j) out)
       \<and> length (drop (28 + j) out) mod 4 = 0
       \<and> take (length bin_data) (drop (28 + j) out) = bin_data))"
proof (intro conjI impI)
  assume a: "add_to_buffer f32_bits bin_data d = Inr (bin', offset, n)"
  then obtain packed where p: "pack_data f32_bits d = Inr packed"
    and b: "bin' = pad4 0x00 bin_data @ packed" and o: "offset = length (pad4 0x00 bin_data)"
    and n: "n = length packed"
    by (auto simp: add_to_buffer_def Let_def then_do_def split: sum.splits)
  show "offset mod 4 = 0" unfolding o by (rule length_pad4_mod)
  show "length bin_data \<le> offset" unfolding o by (simp add: pad4_eq)
  show "take (length bin_data) bin' = bin_data" unfolding b by (simp add: pad4_eq)
  show "length bin' = offset + n" unfolding b o n by simp
next
  assume w: "write_glb json_dumps gltf bin_data = Inr out"
  define J where "J = pad4 0x20 (json_dumps gltf)"
  define B where "B = pad4 0x00 bin_data"
  from w have small: "length B < 2 ^ 32"
    and out: "out = le_bytes 4 GLB_MAGIC @ le_bytes 4 2 @ le_bytes 4 (12 + 8 + length J + 8 + length B)
      @ le_bytes 4 (length J) @ le_bytes 4 0x4E4F534A @ J
      @ le_bytes 4 (length B) @ le_bytes 4 0x004E4942 @ B"
    unfolding write_glb_def Let_def J_def [symmetric] B_def [symmetric]
    by (auto simp: pack_I_def split: if_splits)
  have d1: "drop (28 + length J) out = B" and d2: "take 4 (drop (20 + length J) out) = le_bytes 4 (length B)"
    by (simp_all add: out)
  have "take (length bin_data) B = bin_data" by (simp add: B_def pad4_eq)
  moreover have "length B mod 4 = 0" unfolding B_def by (rule length_pad4_mod)
  ultimately show "let j = length (pad4 0x20 (json_dumps gltf)) in
       unpack_I (take 4 (drop (20 + j) out)) = length (drop (28 + j) out)
       \<and> length (drop (28 + j) out) mod 4 = 0
       \<and> take (length bin_data) (drop (28 + j) out) = bin_data"
    unfolding Let_def J_def [symmetric] d1 d2 using small by (simp add: unpack_I_le_bytes)
qed

lemma pad4_3: "pad4 fill [a, b, c] = [a, b, c, fill]"
  by (simp add: pad4.simps)

lemma pad4_5: "pad4 fill [a, b, c, d, e] = [a, b, c, d, e, fill, fill, fill]"
  by (simp add: pad4.simps)

text \<open>An append to a payload of three bytes, and a container written with five.\<close>

theorem add_to_buffer_aligned_witness:
  "add_to_buffer (\<lambda>x. 0) [1, 2, 3] (UBytes [7, 9]) = Inr ([1, 2, 3, 0, 7, 9], 4, 2)
   \<and> (4 :: nat) mod 4 = 0
   \<and> (\<exists>out. write_glb (\<lambda>d. utf8 ''{}'') () [1, 2, 3, 4, 5] = Inr out
        \<and> unpack_I (take 4 (drop 24 out)) = 8
        \<and> drop 32 out = [1, 2, 3, 4, 5, 0, 0, 0])"
proof -
  have a: "add_to_buffer (\<lambda>x. 0) [1, 2, 3] (UBytes [7, 9]) = Inr ([1, 2, 3, 0, 7, 9], 4, 2)"
    by (simp add: add_to_buffer_def pack_data_def then_do_def pad4_3 le_bytes_def)
  obtain out where w: "write_glb (\<lambda>d. utf8 ''{}'') () [1, 2, 3, 4, 5] = Inr out"
    and o: "drop 32 out = [1, 2, 3, 4, 5, 0, 0, 0]" and l: "length out = 40"
    by (simp add: write_glb_def pack_I_def utf8_braces pad4_2 pad4_5)
  have j: "length (pad4 0x20 (utf8 ''{}'')) = 4" by (simp add: utf8_braces pad4_2)
  from add_to_buffer_aligned [of "\<lambda>x. 0" "[1, 2, 3]" "UBytes [7, 9]" "[1, 2, 3, 0, 7, 9]" 4 2
      "\<lambda>d. utf8 ''{}''" "()" out] a
  have "(4 :: nat) mod 4 = 0" by simp
  moreover
  from add_to_buffer_aligned [of "\<lambda>x. 0" "[1, 2, 3, 4, 5]" "UBytes [7, 9]" "[1, 2, 3, 0, 7, 9]" 4 2
      "\<lambda>d. utf8 ''{}''" "()" out] w
  have "unpack_I (take 4 (drop 24 out)) = 8"
    by (simp add: j l)
  ultimately show ?thesis using a w o by blast
qed

text \<open>
  C8. When no node of the decoded document has a \<open>mesh\<close> key, the run fails with
  \<open>ValueError('No mesh found in model')\<close>, the failure of the search for the mesh node,
  and no output file is written.
\<close>

theorem no_mesh_fails:
  assumes "read_glb json_loads input_file = Inr (gltf, bin_data)"
    and "\<forall>n \<in> set (g_nodes gltf). n_mesh n = None"
  shows "add_skeleton f32_val f32_bits argsort gltf bin_data
           = Inl (ValueError ''No mesh found in model'')
         \<and> add_skeleton_to_glb json_loads json_dumps f32_val f32_bits argsort input_file
           = (Inl (ValueError ''No mesh found in model''), None)"
  using assms by (simp add: add_skeleton_to_glb_def add_skeleton_no_mesh)

lemma loads_only_padded:
  "0x20 \<notin> set (utf8 text) \<Longrightarrow> loads_only text doc (pad4 0x20 (utf8 text)) = Some doc"
proof -
  assume a: "0x20 \<notin> set (utf8 text)"
  define k where "k = (4 - length (utf8 text) mod 4) mod 4"
  have p: "\<And>b. b \<in> set (utf8 text) \<Longrightarrow> b \<noteq> 0x20" using a by auto
  have "takeWhile (\<lambda>b. b \<noteq> 0x20) (utf8 text @ replicate k 0x20) = utf8 text"
    using p by (simp add: takeWhile_append2 takeWhile_replicate)
  moreover have "dropWhile (\<lambda>b. b \<noteq> 0x20) (utf8 text @ replicate k 0x20) = replicate k 0x20"
    using p by (simp add: dropWhile_append2 dropWhile_replicate)
  moreover have "set (replicate k (0x20 :: byte)) \<subseteq> {0x20}"
    by (simp add: set_replicate_conv_if)
  ultimately show ?thesis
    by (simp add: loads_only_def pad4_eq k_def [symmetric])
qed

lemma no_mesh_text_plain: "0x20 \<notin> set (utf8 no_mesh_text)"
  by (simp add: utf8_def no_mesh_text_def)

lemma read_glb_of_text:
  assumes "0x20 \<notin> set (utf8 text)" and "length (pad4 0x20 (utf8 text)) + length (pad4 0x00 payload) < 2 ^ 31"
  shows "read_glb (loads_only text doc) (glb_of_text text payload) = Inr (doc, pad4 0x00 payload)"
proof -
  have "read_glb (loads_only text doc) (glb_of_text text payload)
      = (case loads_only text doc (pad4 0x20 (utf8 text)) of
           None \<Rightarrow> Inl JSONDecodeError | Some d \<Rightarrow> Inr (d, pad4 0x00 payload))"
    unfolding glb_of_text_def Let_def using assms(2) by (intro read_glb_layout) simp_all
  then show ?thesis by (simp add: loads_only_padded [OF assms(1)])
qed

text \<open>A container with one node that has no mesh.\<close>

theorem no_mesh_fails_witness:
  "read_glb (loads_only no_mesh_text no_mesh_doc) (glb_of_text no_mesh_text []) = Inr (no_mesh_doc, [])
   \<and> list_all (\<lambda>n. n_mesh n = None) (g_nodes no_mesh_doc)
   \<and> add_skeleton_to_glb (loads_only no_mesh_text no_mesh_doc) (\<lambda>d. utf8 no_mesh_text)
        (\<lambda>w. 0) (\<lambda>x. 0) (\<lambda>ws. [0..<length ws]) (glb_of_text no_mesh_text [])
      = (Inl (ValueError ''No mesh found in model''), None)"
proof -
  have "length (pad4 0x20 (utf8 no_mesh_text)) \<le> length no_mesh_text + 3"
    by (simp add: pad4_eq utf8_def)
  moreover have "length no_mesh_text = 85" by (simp add: no_mesh_text_def)
  ultimately have "length (pad4 0x20 (utf8 no_mesh_text)) + length (pad4 0x00 ([] :: byte list)) < 2 ^ 31"
    by (simp add: pad4.simps)
  from read_glb_of_text [OF no_mesh_text_plain this]
  have r: "read_glb (loads_only no_mesh_text no_mesh_doc) (glb_of_text no_mesh_text [])
      = Inr (no_mesh_doc, [])"
    by (simp add: pad4.simps)
  have n: "\<forall>n \<in> set (g_nodes no_mesh_doc). n_mesh n = None"
    by (simp add: no_mesh_doc_def)
  show ?thesis
    using no_mesh_fails [OF r n, of "\<lambda>w. 0" "\<lambda>x. 0" "\<lambda>ws. [0..<length ws]" "\<lambda>d. utf8 no_mesh_text"] r n
    by (simp add: list_all_iff)
qed

subsection \<open>The skeleton\<close>

lemma skeleton_parents:
  "create_humanoid_skeleton mesh_bounds = Inr bones \<Longrightarrow>
     map parent_index bones = [-1, 0, 1, 2, 3, 4, 3, 6, 7, 8, 3, 10, 11, 12, 1, 14, 15, 1, 17, 18]"
  by (auto simp: create_humanoid_skeleton_def Let_def parent_index_def split: if_splits)

lemma skeleton_names:
  "create_humanoid_skeleton mesh_bounds = Inr bones \<Longrightarrow>
     map fst bones = [''Root'', ''Hips'', ''Spine'', ''Chest'', ''Neck'', ''Head'',
       ''LeftShoulder'', ''LeftArm'', ''LeftForearm'', ''LeftHand'',
       ''RightShoulder'', ''RightArm'', ''RightForearm'', ''RightHand'',
       ''LeftUpLeg'', ''LeftLeg'', ''LeftFoot'', ''RightUpLeg'', ''RightLeg'', ''RightFoot'']"
  by (auto simp: create_humanoid_skeleton_def Let_def split: if_splits)

lemma skeleton_length:
  "create_humanoid_skeleton mesh_bounds = Inr bones \<Longrightarrow> length bones = 20"
proof -
  assume "create_humanoid_skeleton mesh_bounds = Inr bones"
  then have "length (map parent_index bones) = 20"
    by (simp only: skeleton_parents) simp
  then show ?thesis by simp
qed

lemma indexed_all:
  "(\<forall>i<length xs. P i (xs ! i)) \<longleftrightarrow> list_all (\<lambda>(i, x). P i x) (zip [0..<length xs] xs)"
  by (simp add: list_all_length)

lemma upt_20: "[0..<20] = [0, 1, 2, 3, 4, 5, 6, 7, 8, 9, 10, 11, 12, 13, 14, 15, 16, 17, 18, 19]"
  by (simp add: upt_conv_Cons)

text \<open>
  C7. Topological order of the generated skeleton: the bone at index 0 has parent -1,
  every other bone has a parent, and a parent index that is not negative is smaller
  than the index of its bone. So the parent links form a tree rooted at index 0 and
  every parent precedes its children.
\<close>

theorem skeleton_topological:
  assumes "create_humanoid_skeleton mesh_bounds = Inr bones"
  shows "parent_index (bones ! 0) = -1
    \<and> (\<forall>i<length bones. 0 < i \<longrightarrow> 0 \<le> parent_index (bones ! i))
    \<and> (\<forall>i<length bones. 0 \<le> parent_index (bones ! i) \<longrightarrow> parent_index (bones ! i) < int i)"
proof -
  define ps where "ps = map parent_index bones"
  have ps: "ps = [-1, 0, 1, 2, 3, 4, 3, 6, 7, 8, 3, 10, 11, 12, 1, 14, 15, 1, 17, 18]"
    unfolding ps_def by (rule skeleton_parents [OF assms])
  have len: "length ps = 20" by (simp add: ps)
  have n: "\<And>i. i < length bones \<Longrightarrow> parent_index (bones ! i) = ps ! i"
    by (simp add: ps_def)
  define Q where "Q = (\<lambda>(i :: nat) (p :: int).
      (i = 0 \<longrightarrow> p = -1) \<and> (0 < i \<longrightarrow> 0 \<le> p) \<and> (0 \<le> p \<longrightarrow> p < int i))"
  have "list_all (\<lambda>(i, p). Q i p) (zip [0..<length ps] ps)"
    unfolding len upt_20 by (simp add: ps Q_def)
  then have "\<forall>i<length ps. Q i (ps ! i)"
    by (simp only: indexed_all [of ps Q])
  then have "\<forall>i<length ps. (i = 0 \<longrightarrow> ps ! i = -1) \<and> (0 < i \<longrightarrow> 0 \<le> ps ! i)
      \<and> (0 \<le> ps ! i \<longrightarrow> ps ! i < int i)"
    by (simp add: Q_def)
  moreover have "length bones = length ps" by (simp add: ps_def)
  ultimately show ?thesis using n len by (auto simp: ps)
qed

lemma skeleton_succeeds:
  "3 \<le> length (fst mesh_bounds) \<Longrightarrow> 3 \<le> length (snd mesh_bounds) \<Longrightarrow>
     \<exists>bones. create_humanoid_skeleton mesh_bounds = Inr bones"
  by (simp add: create_humanoid_skeleton_def Let_def)

text \<open>The skeleton for the bounds \<open>(0,0,0)\<close> to \<open>(1,1,0)\<close>.\<close>

theorem skeleton_topological_witness:
  "(case create_humanoid_skeleton ([0, 0, 0], [1, 1, 0]) of
      Inl e \<Rightarrow> False
    | Inr bones \<Rightarrow> length bones = 20 \<and> parent_index (bones ! 0) = -1
        \<and> parent_index (bones ! 19) = 18 \<and> parent_index (bones ! 6) = 3)"
proof -
  obtain bones where b: "create_humanoid_skeleton ([0, 0, 0], [1, 1, 0]) = Inr bones"
    using skeleton_succeeds [of "([0, 0, 0], [1, 1, 0])"] by auto
  have l: "length bones = 20" by (rule skeleton_length [OF b])
  have "map parent_index bones ! 19 = 18" "map parent_index bones ! 6 = 3"
    unfolding skeleton_parents [OF b] by simp_all
  then have "parent_index (bones ! 19) = 18" "parent_index (bones ! 6) = 3"
    using l by simp_all
  with skeleton_topological [OF b] l b show ?thesis by simp
qed

subsection \<open>The animation clips\<close>

lemma frame_times_sorted: "sorted_wrt (<) (frame_times n)"
proof -
  have "sorted_wrt (<) [0..<n + 1]" by (rule sorted_wrt_upt)
  then have "sorted_wrt (\<lambda>i j. real i / real fps < real j / real fps) [0..<n + 1]"
    by (rule sorted_wrt_mono_rel [rotated]) (simp add: fps_def)
  then show ?thesis by (simp only: frame_times_def sorted_wrt_map)
qed

lemma frame_times_hd: "frame_times n \<noteq> [] \<and> hd (frame_times n) = 0"
  unfolding frame_times_def by (simp add: upt_conv_Cons hd_map del: upt_Suc)

lemma frame_times_last: "last (frame_times n) = real n / real fps"
  unfolding frame_times_def by (simp add: last_map)

lemma fold_min_sorted:
  "\<forall>y \<in> set rest. x < y \<Longrightarrow> fold (\<lambda>y m. if y < m then y else m) rest (x::real) = x"
  by (induction rest) auto

lemma fold_max_sorted:
  "sorted_wrt (<) (x # rest) \<Longrightarrow> fold (\<lambda>y m. if y > m then y else m) rest (x::real) = last (x # rest)"
  by (induction rest arbitrary: x) auto

lemma py_min_sorted:
  "xs \<noteq> [] \<Longrightarrow> sorted_wrt (<) xs \<Longrightarrow> py_min xs = Inr (hd xs)"
  by (cases xs) (auto simp: py_min_def fold_min_sorted)

lemma py_max_sorted:
  "xs \<noteq> [] \<Longrightarrow> sorted_wrt (<) xs \<Longrightarrow> py_max xs = Inr (last xs)"
  by (cases xs) (simp_all add: py_max_def fold_max_sorted del: last.simps sorted_wrt.simps)

lemma animation_time_lists:
  assumes "create_animations bones mesh_height = Inr clips"
    and "(clip_name, channels) \<in> set clips"
    and "(bone_idx, path, time_list, vals) \<in> set channels"
  shows "time_list \<in> {frame_times 60, frame_times 30, frame_times 15}"
  using assms by (auto simp: create_animations_def Let_def split: if_splits)

text \<open>
  C5. For every channel of every clip that \<open>create_animations\<close> returns, the time
  array starts at 0 and is strictly increasing, and the accessor that
  \<open>add_skeleton_to_glb\<close> builds for it declares as \<open>min\<close> the first time sample and as
  \<open>max\<close> the last one.
\<close>

theorem animation_times:
  assumes "create_animations bones mesh_height = Inr clips"
    and "(clip_name, channels) \<in> set clips"
    and "(bone_idx, path, time_list, vals) \<in> set channels"
  shows "time_list \<noteq> [] \<and> hd time_list = 0 \<and> sorted_wrt (<) time_list
    \<and> (\<exists>acc. times_accessor times_bv_idx time_list = Inr acc
          \<and> acc_min acc = Some [hd time_list] \<and> acc_max acc = Some [last time_list])"
proof -
  obtain n where t: "time_list = frame_times n"
    using animation_time_lists [OF assms] by auto
  have 1: "time_list \<noteq> []" "hd time_list = 0" "sorted_wrt (<) time_list"
    by (simp_all add: t frame_times_hd frame_times_sorted)
  then have "times_accessor times_bv_idx time_list =
      Inr \<lparr> acc_bufferView = times_bv_idx, acc_byteOffset = None, acc_componentType = 5126,
            acc_count = length time_list, acc_type = ''SCALAR'',
            acc_min = Some [hd time_list], acc_max = Some [last time_list] \<rparr>"
    by (simp add: times_accessor_def then_do_def py_min_sorted py_max_sorted)
  with 1 show ?thesis by simp
qed

lemma create_animations_shape:
  assumes "2 \<le> length bones"
  shows "\<exists>sv w1 w2 w3 w4 w5 a1 a2 a3. create_animations bones h = Inr
       [(''Idle'', [(2, ''rotation'', frame_times 60, sv)]),
        (''Walk'', [(1, ''translation'', frame_times 30, w1),
                    (14, ''rotation'', frame_times 30, w2),
                    (17, ''rotation'', frame_times 30, w3),
                    (7, ''rotation'', frame_times 30, w4),
                    (11, ''rotation'', frame_times 30, w5)]),
        (''Attack'', [(11, ''rotation'', frame_times 15, a1),
                      (12, ''rotation'', frame_times 15, a2),
                      (3, ''rotation'', frame_times 15, a3)])]"
  using assms unfolding create_animations_def Let_def by simp

text \<open>The channel of the Idle clip, for a list of two bones.\<close>

theorem animation_times_witness:
  "(case create_animations [(''Root'', (0, 0, 0), -1), (''Hips'', (0, 1, 0), 0)] 1 of
      Inl e \<Rightarrow> False
    | Inr clips \<Rightarrow> fst (hd clips) = ''Idle''
        \<and> (case snd (hd clips) of
             [] \<Rightarrow> False
           | (bone_idx, path, time_list, vals) # rest \<Rightarrow>
               time_list = frame_times 60 \<and> hd time_list = 0 \<and> sorted_wrt (<) time_list
               \<and> (\<exists>acc. times_accessor 7 time_list = Inr acc
                     \<and> acc_min acc = Some [0] \<and> acc_max acc = Some [2])))"
proof -
  define bones :: "bone list" where "bones = [(''Root'', (0, 0, 0), -1), (''Hips'', (0, 1, 0), 0)]"
  have "2 \<le> length bones" by (simp add: bones_def)
  from create_animations_shape [OF this, of 1]
  obtain sv walk attack where
    c: "create_animations bones 1 = Inr [(''Idle'', [(2, ''rotation'', frame_times 60, sv)]),
          (''Walk'', walk), (''Attack'', attack)]"
    by blast
  have m1: "(''Idle'', [(2, ''rotation'', frame_times 60, sv)])
      \<in> set [(''Idle'', [(2, ''rotation'', frame_times 60, sv)]), (''Walk'', walk), (''Attack'', attack)]"
    by simp
  have m2: "(2, ''rotation'', frame_times 60, sv) \<in> set [(2, ''rotation'', frame_times 60, sv)]"
    by simp
  have l: "last (frame_times 60) = 2" by (simp add: frame_times_last fps_def)
  from animation_times [OF c m1 m2, of 7] l
  show ?thesis unfolding bones_def [symmetric] c by auto
qed


subsection \<open>The skin weights\<close>

lemma length_inv_dist [simp]: "length (inv_dist bps pos) = length bps"
  by (simp add: inv_dist_def)

lemma distance_nonneg: "0 \<le> distance b p"
  by (cases b; cases p) (simp add: distance_def)

lemma inv_dist_pos: "i < length bps \<Longrightarrow> 0 < inv_dist bps pos ! i"
  using distance_nonneg [of "bps ! i" pos] by (simp add: inv_dist_def add_pos_nonneg)

lemma argsort_set:
  assumes "argsort_ok keys perm"
  shows "set perm = {..<length keys}"
proof -
  from assms have d: "distinct perm" and l: "length perm = length keys"
    and s: "set perm \<subseteq> {..<length keys}"
    by (auto simp: argsort_ok_def list_all_iff)
  have "card (set perm) = length keys" using d l by (simp add: distinct_card)
  then show ?thesis using s by (simp add: card_subset_eq)
qed

text \<open>The selection: the last \<open>max_influences\<close> indices of the order, largest key first.\<close>

lemma top_indices_props:
  assumes ok: "argsort_ok ws (argsort ws)" and n: "max_influences \<le> length ws"
  shows "length (top_indices argsort ws) = max_influences"
    and "distinct (top_indices argsort ws)"
    and "set (top_indices argsort ws) \<subseteq> {..<length ws}"
    and "sorted (rev (map (\<lambda>i. ws ! i) (top_indices argsort ws)))"
    and "\<forall>j<length ws. j \<notin> set (top_indices argsort ws) \<longrightarrow>
           (\<forall>i \<in> set (top_indices argsort ws). ws ! j \<le> ws ! i)"
proof -
  define order where "order = argsort ws"
  define k where "k = length order - max_influences"
  have t: "top_indices argsort ws = rev (drop k order)"
    by (simp add: top_indices_def Let_def order_def k_def)
  from ok have l: "length order = length ws" and d: "distinct order"
    and s: "sorted (map (\<lambda>i. ws ! i) order)"
    by (simp_all add: argsort_ok_def order_def)
  have so: "set order = {..<length ws}" using argsort_set [OF ok] by (simp add: order_def)
  show "length (top_indices argsort ws) = max_influences" using n l by (simp add: t k_def)
  show "distinct (top_indices argsort ws)" using d by (simp add: t)
  show "set (top_indices argsort ws) \<subseteq> {..<length ws}"
    using set_drop_subset [of k order] so by (simp add: t)
  have sp: "sorted (map (\<lambda>i. ws ! i) (take k order) @ map (\<lambda>i. ws ! i) (drop k order))"
    using s by (simp add: map_append [symmetric] del: map_append)
  then show "sorted (rev (map (\<lambda>i. ws ! i) (top_indices argsort ws)))"
    by (simp add: t rev_map sorted_append)
  show "\<forall>j<length ws. j \<notin> set (top_indices argsort ws) \<longrightarrow>
           (\<forall>i \<in> set (top_indices argsort ws). ws ! j \<le> ws ! i)"
  proof (intro allI impI ballI)
    fix j i assume j: "j < length ws" "j \<notin> set (top_indices argsort ws)"
      and i: "i \<in> set (top_indices argsort ws)"
    have "set order = set (take k order) \<union> set (drop k order)"
      by (metis append_take_drop_id set_append)
    moreover have "j \<in> set order" using j(1) so by simp
    moreover have "j \<notin> set (drop k order)" using j(2) by (simp add: t)
    ultimately have "j \<in> set (take k order)" by blast
    moreover have "i \<in> set (drop k order)" using i by (simp add: t)
    ultimately show "ws ! j \<le> ws ! i" using sp by (simp add: sorted_append)
  qed
qed

lemma normalize_length [simp]: "length (normalize_weights ws) = length ws"
  by (simp add: normalize_weights_def Let_def)

lemma normalize_sorted: "sorted (rev ws) \<Longrightarrow> sorted (rev (normalize_weights ws))"
proof -
  assume s: "sorted (rev ws)"
  show ?thesis
  proof (cases "0 < sum_list ws")
    case True
    have "sorted_wrt (\<lambda>a b. a / sum_list ws \<le> b / sum_list ws) (rev ws)"
    proof (rule sorted_wrt_mono_rel [of "rev ws" "(\<le>)"])
      fix x y :: real
      assume "x \<le> y"
      then show "x / sum_list ws \<le> y / sum_list ws"
        using True by (simp add: divide_right_mono)
    next
      show "sorted (rev ws)" by (rule s)
    qed
    then have "sorted (map (\<lambda>w. w / sum_list ws) (rev ws))"
      by (simp add: sorted_map)
    then show ?thesis using True by (simp add: normalize_weights_def rev_map)
  next
    case False
    then show ?thesis using s by (simp add: normalize_weights_def)
  qed
qed


lemma sum_list_divide: "sum_list (map (\<lambda>w. w / t) ws) = sum_list ws / (t::real)"
  by (induction ws) (simp_all add: add_divide_distrib)

lemma sum_list_positive:
  "xs \<noteq> [] \<Longrightarrow> \<forall>x \<in> set xs. 0 < (x::real) \<Longrightarrow> 0 < sum_list xs"
  by (cases xs) (auto intro!: add_pos_nonneg sum_list_nonneg simp: less_imp_le)

text \<open>In exact arithmetic the selected weights are positive and the emitted ones sum to 1.\<close>

lemma selected_total_positive:
  assumes ok: "argsort_ok ws (argsort ws)" and n: "max_influences \<le> length ws"
    and pos: "\<forall>i<length ws. 0 < ws ! i"
  shows "0 < sum_list (map (\<lambda>i. ws ! i) (top_indices argsort ws))"
proof -
  have "top_indices argsort ws \<noteq> []"
    using top_indices_props(1) [where argsort = argsort and ws = ws, OF ok n]
    by (auto simp: max_influences_def)
  moreover have "\<forall>i \<in> set (top_indices argsort ws). 0 < ws ! i"
    using top_indices_props(3) [where argsort = argsort and ws = ws, OF ok n] pos by auto
  ultimately show ?thesis
    by (intro sum_list_positive) auto
qed

lemma normalize_sums_to_one: "0 < sum_list ws \<Longrightarrow> sum_list (normalize_weights ws) = 1"
  by (simp add: normalize_weights_def sum_list_divide)

lemma assign_row_full: "length xs = max_influences \<Longrightarrow> assign_row xs = Inr xs"
  by (simp add: assign_row_def)

lemma assign_row_length: "assign_row xs = Inr ys \<Longrightarrow> length ys = max_influences"
  by (auto simp: assign_row_def split: if_splits)

lemma vertex_influences_ok:
  assumes ok: "argsort_ok (inv_dist bps pos) (argsort (inv_dist bps pos))"
    and n: "max_influences \<le> length bps" "length bps \<le> 256"
  shows "vertex_influences argsort bps pos =
           Inr (top_indices argsort (inv_dist bps pos),
                normalize_weights (map (\<lambda>i. inv_dist bps pos ! i)
                  (top_indices argsort (inv_dist bps pos))))"
proof -
  define top where "top = top_indices argsort (inv_dist bps pos)"
  have n': "max_influences \<le> length (inv_dist bps pos)" using n by simp
  have l: "length top = max_influences" and s: "set top \<subseteq> {..<length bps}"
    using top_indices_props(1,3) [where argsort = argsort and ws = "inv_dist bps pos", OF ok n']
    by (simp_all add: top_def)
  have "\<forall>i \<in> set top. i mod 256 = i" using s n(2) by auto
  then have m: "map (\<lambda>i. i mod 256) top = top" by (simp add: map_idI)
  have ne: "bps \<noteq> []" using n(1) by (auto simp: max_influences_def)
  show ?thesis
    unfolding vertex_influences_def Let_def top_def [symmetric]
    using ne by (simp add: m then_do_def assign_row_full l)
qed

lemma skin_rows_ok:
  assumes "\<forall>pos \<in> set positions. argsort_ok (inv_dist bps pos) (argsort (inv_dist bps pos))"
    and "max_influences \<le> length bps" "length bps \<le> 256"
  shows "skin_rows argsort bps positions =
     Inr (map (\<lambda>pos. (top_indices argsort (inv_dist bps pos),
                normalize_weights (map (\<lambda>i. inv_dist bps pos ! i)
                  (top_indices argsort (inv_dist bps pos))))) positions)"
  using assms by (induction positions) (simp_all add: vertex_influences_ok then_do_def)

lemma concat_slice:
  assumes "\<forall>x \<in> set xs. length (f x) = k" and "v < length xs"
  shows "take k (drop (k * v) (concat (map f xs))) = f (xs ! v)"
  using assms
proof (induction xs arbitrary: v)
  case Nil
  then show ?case by simp
next
  case (Cons x xs)
  show ?case
  proof (cases v)
    case 0
    then show ?thesis using Cons.prems by simp
  next
    case (Suc u)
    then have "k * v = length (f x) + k * u" using Cons.prems by simp
    then show ?thesis using Cons Suc by simp
  qed
qed

lemma length_concat_const:
  "\<forall>x \<in> set xs. length (f x) = k \<Longrightarrow> length (concat (map f xs)) = k * length xs"
  by (induction xs) simp_all

lemma stable_argsort_ok: "argsort_ok keys (stable_argsort keys)"
  by (simp add: argsort_ok_def stable_argsort_def list_all_iff)

lemma compute_skin_weights_ok:
  assumes ok: "\<forall>pos \<in> set positions.
        argsort_ok (inv_dist (map (\<lambda>b. fst (snd b)) bones) pos)
          (argsort (inv_dist (map (\<lambda>b. fst (snd b)) bones) pos))"
    and n: "max_influences \<le> length bones" "length bones \<le> 256"
  shows "compute_skin_weights argsort positions bones =
     Inr (concat (map (\<lambda>pos. top_indices argsort (inv_dist (map (\<lambda>b. fst (snd b)) bones) pos)) positions),
          concat (map (\<lambda>pos. normalize_weights (map (\<lambda>i. inv_dist (map (\<lambda>b. fst (snd b)) bones) pos ! i)
                  (top_indices argsort (inv_dist (map (\<lambda>b. fst (snd b)) bones) pos)))) positions))"
  unfolding compute_skin_weights_def
  using skin_rows_ok [of positions "map (\<lambda>b. fst (snd b)) bones" argsort] assms
  by (simp add: then_do_def comp_def)

text \<open>
  C10. For a bone list of at least \<open>max_influences\<close> and at most 256 bones, and an
  \<open>argsort\<close> that sorts the inverse distances of each vertex, \<open>compute_skin_weights\<close>
  returns four joints and four weights per vertex, vertex after vertex. For each
  vertex the weights are in non-increasing order, the joints are distinct bone
  indices, every bone left out has an inverse distance no larger than that of any
  joint chosen, and the weights are the normalised inverse distances of the joints.
\<close>

theorem skin_weights_top_k:
  assumes ok: "\<forall>pos \<in> set positions.
        argsort_ok (inv_dist (map (\<lambda>b. fst (snd b)) bones) pos)
          (argsort (inv_dist (map (\<lambda>b. fst (snd b)) bones) pos))"
    and n: "max_influences \<le> length bones" "length bones \<le> 256"
  shows "\<exists>joints_data weights_data.
      compute_skin_weights argsort positions bones = Inr (joints_data, weights_data)
      \<and> length joints_data = max_influences * length positions
      \<and> length weights_data = max_influences * length positions
      \<and> (\<forall>v<length positions.
            let ws = inv_dist (map (\<lambda>b. fst (snd b)) bones) (positions ! v);
                joints = take max_influences (drop (max_influences * v) joints_data);
                weights = take max_influences (drop (max_influences * v) weights_data)
            in length joints = max_influences \<and> length weights = max_influences
               \<and> sorted (rev weights)
               \<and> distinct joints
               \<and> set joints \<subseteq> {..<length bones}
               \<and> (\<forall>j<length bones. j \<notin> set joints \<longrightarrow> (\<forall>i \<in> set joints. ws ! j \<le> ws ! i))
               \<and> weights = normalize_weights (map (\<lambda>i. ws ! i) joints))"
proof -
  define bps where "bps = map (\<lambda>b. fst (snd b)) bones"
  define J where "J = (\<lambda>pos. top_indices argsort (inv_dist bps pos))"
  define W where "W = (\<lambda>pos. normalize_weights (map (\<lambda>i. inv_dist bps pos ! i) (J pos)))"
  have c: "compute_skin_weights argsort positions bones =
      Inr (concat (map J positions), concat (map W positions))"
    using compute_skin_weights_ok [OF assms] by (simp add: J_def W_def bps_def)
  have n': "\<And>pos. max_influences \<le> length (inv_dist bps pos)" using n by (simp add: bps_def)
  have ok': "\<And>pos. pos \<in> set positions \<Longrightarrow>
      argsort_ok (inv_dist bps pos) (argsort (inv_dist bps pos))"
    using ok by (simp add: bps_def)
  have lj: "\<forall>pos \<in> set positions. length (J pos) = max_influences"
    using top_indices_props(1) [where argsort = argsort, OF ok' n'] by (simp add: J_def)
  then have lw: "\<forall>pos \<in> set positions. length (W pos) = max_influences"
    by (simp add: W_def)
  have per: "\<forall>v<length positions.
            let ws = inv_dist bps (positions ! v);
                joints = take max_influences (drop (max_influences * v) (concat (map J positions)));
                weights = take max_influences (drop (max_influences * v) (concat (map W positions)))
            in length joints = max_influences \<and> length weights = max_influences
               \<and> sorted (rev weights)
               \<and> distinct joints
               \<and> set joints \<subseteq> {..<length bones}
               \<and> (\<forall>j<length bones. j \<notin> set joints \<longrightarrow> (\<forall>i \<in> set joints. ws ! j \<le> ws ! i))
               \<and> weights = normalize_weights (map (\<lambda>i. ws ! i) joints)"
  proof (intro allI impI)
    fix v assume v: "v < length positions"
    define pos where "pos = positions ! v"
    have p: "pos \<in> set positions" using v by (simp add: pos_def)
    note props = top_indices_props [where argsort = argsort and ws = "inv_dist bps pos", OF ok' [OF p] n']
    have sj: "take max_influences (drop (max_influences * v) (concat (map J positions))) = J pos"
      unfolding pos_def by (rule concat_slice [OF lj v])
    have sw: "take max_influences (drop (max_influences * v) (concat (map W positions))) = W pos"
      unfolding pos_def by (rule concat_slice [OF lw v])
    have pj: "length (J pos) = max_influences" "distinct (J pos)"
      "set (J pos) \<subseteq> {..<length bones}"
      "\<forall>j<length bones. j \<notin> set (J pos) \<longrightarrow>
          (\<forall>i \<in> set (J pos). inv_dist bps pos ! j \<le> inv_dist bps pos ! i)"
      using props(1,2,3,5) by (simp_all add: J_def bps_def)
    have pw: "sorted (rev (W pos))" "length (W pos) = max_influences"
      "W pos = normalize_weights (map (\<lambda>i. inv_dist bps pos ! i) (J pos))"
      using normalize_sorted [OF props(4)] pj(1) by (simp_all add: W_def J_def)
    show "let ws = inv_dist bps (positions ! v);
                joints = take max_influences (drop (max_influences * v) (concat (map J positions)));
                weights = take max_influences (drop (max_influences * v) (concat (map W positions)))
            in length joints = max_influences \<and> length weights = max_influences
               \<and> sorted (rev weights)
               \<and> distinct joints
               \<and> set joints \<subseteq> {..<length bones}
               \<and> (\<forall>j<length bones. j \<notin> set joints \<longrightarrow> (\<forall>i \<in> set joints. ws ! j \<le> ws ! i))
               \<and> weights = normalize_weights (map (\<lambda>i. ws ! i) joints)"
      unfolding Let_def sj sw pos_def [symmetric]
      using pj pw by blast
  qed
  have "length (concat (map J positions)) = max_influences * length positions"
    "length (concat (map W positions)) = max_influences * length positions"
    using lj lw by (simp_all add: length_concat_const)
  with c per show ?thesis unfolding bps_def [symmetric] by blast
qed

text \<open>The three vertices of a triangle against the skeleton of its bounds.\<close>

theorem skin_weights_top_k_witness:
  "(case create_humanoid_skeleton ([0, 0, 0], [1, 1, 0]) of
      Inl e \<Rightarrow> False
    | Inr bones \<Rightarrow>
       (case compute_skin_weights stable_argsort [(0, 0, 0), (1, 0, 0), (0, 1, 0)] bones of
          Inl e \<Rightarrow> False
        | Inr (joints_data, weights_data) \<Rightarrow>
            length joints_data = 12 \<and> length weights_data = 12
            \<and> distinct (take 4 joints_data) \<and> sorted (rev (take 4 weights_data))
            \<and> distinct (take 4 (drop 8 joints_data))
            \<and> sorted (rev (take 4 (drop 8 weights_data)))))"
proof -
  obtain bones where b: "create_humanoid_skeleton ([0, 0, 0], [1, 1, 0]) = Inr bones"
    using skeleton_succeeds [of "([0, 0, 0], [1, 1, 0])"] by auto
  have l: "length bones = 20" by (rule skeleton_length [OF b])
  define positions :: "vec3 list" where "positions = [(0, 0, 0), (1, 0, 0), (0, 1, 0)]"
  have lp: "length positions = 3" by (simp add: positions_def)
  have ok: "\<forall>pos \<in> set positions.
        argsort_ok (inv_dist (map (\<lambda>b. fst (snd b)) bones) pos)
          (stable_argsort (inv_dist (map (\<lambda>b. fst (snd b)) bones) pos))"
    by (simp add: stable_argsort_ok)
  have n: "max_influences \<le> length bones" "length bones \<le> 256"
    by (simp_all add: l max_influences_def)
  from skin_weights_top_k [OF ok n]
  obtain joints_data weights_data where
    c: "compute_skin_weights stable_argsort positions bones = Inr (joints_data, weights_data)"
    and len: "length joints_data = 12" "length weights_data = 12"
    and per: "\<forall>v<3. distinct (take 4 (drop (4 * v) joints_data))
        \<and> sorted (rev (take 4 (drop (4 * v) weights_data)))"
    unfolding Let_def lp max_influences_def by auto
  have "(0::nat) < 3" "(2::nat) < 3" by simp_all
  with per have "distinct (take 4 (drop (4 * 0) joints_data))
      \<and> sorted (rev (take 4 (drop (4 * 0) weights_data)))"
    "distinct (take 4 (drop (4 * 2) joints_data))
      \<and> sorted (rev (take 4 (drop (4 * 2) weights_data)))"
    by blast+
  then show ?thesis using b c len by (simp add: positions_def)
qed

end
